theory Spec2Isabelle
  imports Complex_Main
begin

section \<open>Airport layout graph of LTApt.cpp\<close>

subsection \<open>C++ doubles\<close>

text \<open>
  A \<open>double\<close> is a real number, one of the two infinities, or NaN. Rounding and the
  sign of zero are not modelled; every comparison with NaN is false and every
  arithmetic operation on NaN yields NaN, as in IEEE 754. \<open>HUGE_VAL\<close> is \<open>PInf\<close>.
\<close>

datatype double = NaN | NInf | Fin real | PInf

fun isnan :: "double \<Rightarrow> bool" where
  "isnan NaN = True"
| "isnan _ = False"

fun dless :: "double \<Rightarrow> double \<Rightarrow> bool" where
  "dless NaN _ = False"
| "dless _ NaN = False"
| "dless PInf _ = False"
| "dless _ NInf = False"
| "dless (Fin x) (Fin y) = (x < y)"
| "dless _ _ = True"

fun dle :: "double \<Rightarrow> double \<Rightarrow> bool" where
  "dle NaN _ = False"
| "dle _ NaN = False"
| "dle NInf _ = True"
| "dle _ PInf = True"
| "dle (Fin x) (Fin y) = (x \<le> y)"
| "dle _ _ = False"

definition dgt :: "double \<Rightarrow> double \<Rightarrow> bool" where
  "dgt x y = dless y x"

definition dge :: "double \<Rightarrow> double \<Rightarrow> bool" where
  "dge x y = dle y x"

fun dadd :: "double \<Rightarrow> double \<Rightarrow> double" where
  "dadd NaN _ = NaN"
| "dadd _ NaN = NaN"
| "dadd PInf NInf = NaN"
| "dadd NInf PInf = NaN"
| "dadd PInf _ = PInf"
| "dadd _ PInf = PInf"
| "dadd NInf _ = NInf"
| "dadd _ NInf = NInf"
| "dadd (Fin x) (Fin y) = Fin (x + y)"

fun dneg :: "double \<Rightarrow> double" where
  "dneg NaN = NaN"
| "dneg NInf = PInf"
| "dneg PInf = NInf"
| "dneg (Fin x) = Fin (- x)"

definition dsub :: "double \<Rightarrow> double \<Rightarrow> double" where
  "dsub x y = dadd x (dneg y)"

fun dabs :: "double \<Rightarrow> double" where
  "dabs NaN = NaN"
| "dabs NInf = PInf"
| "dabs PInf = PInf"
| "dabs (Fin x) = Fin \<bar>x\<bar>"

subsection \<open>Indices and sentinels\<close>

text \<open>
  \<open>size_t\<close> values are natural numbers; \<open>ULONG_MAX\<close> is the largest 64-bit value.
  No vector of the program can hold that many elements, so an index into a vector
  is always below \<open>ULONG_MAX - 1\<close>.
\<close>

definition ULONG_MAX :: nat where
  "ULONG_MAX = 18446744073709551615"

datatype error = out_of_range | undefined_behaviour | bad_cast

subsection \<open>TaxiNode, RwyEndPt, TaxiEdge\<close>

record TaxiNode =
  lat :: double
  lon :: double
  vecEdges :: "nat list"
  pathLen :: double
  prevIdx :: nat
  bVisited :: bool

text \<open>
  The constructors leave the three Dijkstra attributes uninitialised; the model
  gives them fixed values. \<open>ShortestPath\<close> resets them before it reads them.
\<close>

definition TaxiNode_default :: TaxiNode where
  "TaxiNode_default =
     \<lparr>lat = NaN, lon = NaN, vecEdges = [], pathLen = NaN, prevIdx = 0, bVisited = False\<rparr>"

definition TaxiNode_new :: "double \<Rightarrow> double \<Rightarrow> TaxiNode" where
  "TaxiNode_new la lo =
     \<lparr>lat = la, lon = lo, vecEdges = [], pathLen = NaN, prevIdx = 0, bVisited = False\<rparr>"

definition InitDijkstraAttr :: "'a TaxiNode_scheme \<Rightarrow> 'a TaxiNode_scheme" where
  "InitDijkstraAttr n = n\<lparr>pathLen := PInf, prevIdx := ULONG_MAX, bVisited := False\<rparr>"

definition HasGeoCoords :: "'a TaxiNode_scheme \<Rightarrow> bool" where
  "HasGeoCoords n = (\<not> isnan (lat n) \<and> \<not> isnan (lon n))"

record RwyEndPt = TaxiNode +
  ep_id :: string
  ep_alt_m :: double
  ep_vecTaxiNodes :: "nat list"

definition RwyEndPt_new :: "string \<Rightarrow> double \<Rightarrow> double \<Rightarrow> RwyEndPt" where
  "RwyEndPt_new i la lo =
     \<lparr>lat = la, lon = lo, vecEdges = [], pathLen = NaN, prevIdx = 0, bVisited = False,
      ep_id = i, ep_alt_m = NaN, ep_vecTaxiNodes = []\<rparr>"

datatype nodeTy = UNKNOWN_WAY | RUN_WAY | TAXI_WAY

record TaxiEdge =
  etype :: nodeTy
  node_a :: nat
  node_b :: nat
  angle :: double
  dist_m :: double

definition Normalize :: "TaxiEdge \<Rightarrow> TaxiEdge" where
  "Normalize e =
     (if dge (angle e) (Fin 180)
      then e\<lparr>node_a := node_b e, node_b := node_a e, angle := dsub (angle e) (Fin 180)\<rparr>
      else e)"

definition TaxiEdge_new :: "nodeTy \<Rightarrow> nat \<Rightarrow> nat \<Rightarrow> double \<Rightarrow> double \<Rightarrow> TaxiEdge" where
  "TaxiEdge_new t a b ang d =
     Normalize \<lparr>etype = t, node_a = a, node_b = b, angle = ang, dist_m = d\<rparr>"


definition otherNode :: "TaxiEdge \<Rightarrow> nat \<Rightarrow> nat" where
  "otherNode e n = (if n = node_a e then node_b e else node_a e)"

definition GetAngleFrom :: "TaxiEdge \<Rightarrow> nat \<Rightarrow> double" where
  "GetAngleFrom e n = (if n = node_a e then angle e else dadd (angle e) (Fin 180))"

subsection \<open>Helpers that LTApt.cpp uses and does not define\<close>

text \<open>
  The geometry helpers, the container helper and the configuration constants that
  LTApt.cpp takes from other files of the plugin are parameters of the model, collected
  in one record. Each field has the name of the helper it stands for.
  \<open>between\<close> is \<open>positionTy::between\<close> (angle and distance of the vector between
  two positions) and \<open>pos_add\<close> is \<open>positionTy::operator+=\<close> with a vector.
\<close>

text \<open>
  Modelled from the spec: \<open>distToLineTy\<close>, the result of the point-to-segment distance
  of the geometry utilities, is declared in another file. LTApt.cpp reads its field
  \<open>dist2\<close> only; the other fields are kept as a list.
\<close>

record distToLineTy =
  dist2 :: double
  dtl_other :: "double list"

record env =
  CoordAngle :: "double \<Rightarrow> double \<Rightarrow> double \<Rightarrow> double \<Rightarrow> double"
  DistLatLon :: "double \<Rightarrow> double \<Rightarrow> double \<Rightarrow> double \<Rightarrow> double"
  Dist2Lat :: "double \<Rightarrow> double"
  Dist2Lon :: "double \<Rightarrow> double \<Rightarrow> double"
  APT_MAX_SIMILAR_NODE_DIST_M :: double
  between :: "double \<times> double \<Rightarrow> double \<times> double \<Rightarrow> double \<times> double"
  pos_add :: "double \<times> double \<Rightarrow> double \<times> double \<Rightarrow> double \<times> double"
  ART_RWY_TD_POINT_F :: double
  HeadingNormalize :: "double \<Rightarrow> double"
  HeadingDiff :: "double \<Rightarrow> double \<Rightarrow> double"
  CoordDistance :: "double \<Rightarrow> double \<Rightarrow> double \<Rightarrow> double \<Rightarrow> double"
  ART_RWY_MAX_VSI_F :: double
  Ms_per_FTm :: double
  ART_APPR_SPEED_F :: double
  KT_per_M_per_S :: double
  ART_RWY_MAX_HEAD_DIFF :: double
  Lon2Dist :: "double \<Rightarrow> double \<Rightarrow> double"
  Lat2Dist :: "double \<Rightarrow> double"
  DistPointToLineSqr ::
    "double \<Rightarrow> double \<Rightarrow> double \<Rightarrow> double \<Rightarrow> double \<Rightarrow> double \<Rightarrow> distToLineTy"
  DistSqrOfBaseBeyondLine :: "distToLineTy \<Rightarrow> double"
  DistResultToBaseLoc ::
    "double \<Rightarrow> double \<Rightarrow> double \<Rightarrow> double \<Rightarrow> distToLineTy \<Rightarrow> double \<times> double"
  ART_EDGE_ANGLE_EXT_DIST :: double
  ART_EDGE_ANGLE_TOLERANCE :: double
  ART_EDGE_ANGLE_TOLERANCE_EXT :: double
  SIMILAR_TS_INTVL :: double
  GetFdSnapTaxiDist_m :: int

fun dmul :: "double \<Rightarrow> double \<Rightarrow> double" where
  "dmul NaN _ = NaN"
| "dmul _ NaN = NaN"
| "dmul (Fin x) (Fin y) = Fin (x * y)"
| "dmul (Fin x) PInf = (if x = 0 then NaN else if 0 < x then PInf else NInf)"
| "dmul (Fin x) NInf = (if x = 0 then NaN else if 0 < x then NInf else PInf)"
| "dmul PInf (Fin y) = (if y = 0 then NaN else if 0 < y then PInf else NInf)"
| "dmul NInf (Fin y) = (if y = 0 then NaN else if 0 < y then NInf else PInf)"
| "dmul PInf PInf = PInf"
| "dmul NInf NInf = PInf"
| "dmul PInf NInf = NInf"
| "dmul NInf PInf = NInf"

fun ddiv :: "double \<Rightarrow> double \<Rightarrow> double" where
  "ddiv NaN _ = NaN"
| "ddiv _ NaN = NaN"
| "ddiv (Fin x) (Fin y) =
     (if y = 0 then (if x = 0 then NaN else if 0 < x then PInf else NInf) else Fin (x / y))"
| "ddiv (Fin x) _ = Fin 0"
| "ddiv PInf (Fin y) = (if 0 \<le> y then PInf else NInf)"
| "ddiv NInf (Fin y) = (if 0 \<le> y then NInf else PInf)"
| "ddiv _ _ = NaN"

text \<open>\<open>std::min\<close> and \<open>std::max\<close> return their first argument unless the comparison holds.\<close>

definition dmin :: "double \<Rightarrow> double \<Rightarrow> double" where
  "dmin x y = (if dless y x then y else x)"


subsection \<open>Apt: one airport\<close>

text \<open>
  \<open>boundingBoxTy\<close> is not defined in LTApt.cpp; the model keeps the list of the
  positions the box has been enlarged by.
\<close>

record Apt =
  apt_id :: string
  bounds :: "(double \<times> double) list"
  apt_alt_m :: double
  vecTaxiNodes :: "TaxiNode list"
  vecRwyEndPts :: "RwyEndPt list"
  vecTaxiEdges :: "TaxiEdge list"
  vecTaxiEdgesIdxHead :: "nat list"

definition Apt_new :: "string \<Rightarrow> Apt" where
  "Apt_new i =
     \<lparr>apt_id = i, bounds = [], apt_alt_m = NaN, vecTaxiNodes = [], vecRwyEndPts = [],
      vecTaxiEdges = [], vecTaxiEdgesIdxHead = []\<rparr>"

text \<open>\<open>std::find_if\<close> as a position: the index of the first match, or the end.\<close>

fun find_if_from :: "(nat \<Rightarrow> 'a \<Rightarrow> bool) \<Rightarrow> nat \<Rightarrow> 'a list \<Rightarrow> nat" where
  "find_if_from P i [] = i"
| "find_if_from P i (x # xs) = (if P i x then i else find_if_from P (Suc i) xs)"

definition similar_node :: "env \<Rightarrow> double \<Rightarrow> double \<Rightarrow> nat \<Rightarrow> nat \<Rightarrow> TaxiNode \<Rightarrow> bool" where
  "similar_node E la lo dontCombineWith i n =
     ((dontCombineWith = ULONG_MAX \<or> dontCombineWith \<noteq> i) \<and>
      dle (dabs (dsub (lat n) la)) (Dist2Lat E (APT_MAX_SIMILAR_NODE_DIST_M E)) \<and>
      dle (dabs (dsub (lon n) lo)) (Dist2Lon E (APT_MAX_SIMILAR_NODE_DIST_M E) la))"

definition GetSimilarTaxiNode :: "env \<Rightarrow> Apt \<Rightarrow> double \<Rightarrow> double \<Rightarrow> nat \<Rightarrow> error + nat" where
  "GetSimilarTaxiNode E apt la lo dontCombineWith =
     (if dontCombineWith \<noteq> ULONG_MAX \<and> \<not> dontCombineWith < length (vecTaxiNodes apt)
      then Inl out_of_range
      else Inr (find_if_from (similar_node E la lo dontCombineWith) 0 (vecTaxiNodes apt)))"

definition AddTaxiNode :: "env \<Rightarrow> Apt \<Rightarrow> double \<Rightarrow> double \<Rightarrow> nat \<Rightarrow> error + nat \<times> Apt" where
  "AddTaxiNode E apt la lo dontCombineWith =
     (case GetSimilarTaxiNode E apt la lo dontCombineWith of
        Inl e \<Rightarrow> Inl e
      | Inr i \<Rightarrow>
          if i \<noteq> length (vecTaxiNodes apt) then Inr (i, apt)
          else Inr (length (vecTaxiNodes apt),
                    apt\<lparr>bounds := bounds apt @ [(la, lo)],
                        vecTaxiNodes := vecTaxiNodes apt @ [TaxiNode_new la lo]\<rparr>))"

definition AddTaxiNodeFixed :: "Apt \<Rightarrow> double \<Rightarrow> double \<Rightarrow> nat \<Rightarrow> Apt" where
  "AddTaxiNodeFixed apt la lo idx =
     (let apt1 = apt\<lparr>bounds := bounds apt @ [(la, lo)]\<rparr>;
          ns = vecTaxiNodes apt
      in if idx = length ns then apt1\<lparr>vecTaxiNodes := ns @ [TaxiNode_new la lo]\<rparr>
         else let ns1 = (if length ns < idx
                         then ns @ replicate (idx + 1 - length ns) TaxiNode_default
                         else ns)
              in apt1\<lparr>vecTaxiNodes := ns1[idx := TaxiNode_new la lo]\<rparr>)"

definition push_edge :: "nat \<Rightarrow> nat \<Rightarrow> TaxiNode list \<Rightarrow> TaxiNode list" where
  "push_edge n eIdx ns = ns[n := (ns ! n)\<lparr>vecEdges := vecEdges (ns ! n) @ [eIdx]\<rparr>]"

definition AddTaxiEdge :: "env \<Rightarrow> Apt \<Rightarrow> nat \<Rightarrow> nat \<Rightarrow> double \<Rightarrow> error + nat \<times> Apt" where
  "AddTaxiEdge E apt n1 n2 dist0 =
     (let ns = vecTaxiNodes apt in
      if \<not> n1 < length ns then Inl out_of_range
      else if \<not> n2 < length ns then Inl out_of_range
      else let a = ns ! n1; b = ns ! n2 in
        if \<not> HasGeoCoords a \<or> \<not> HasGeoCoords b then Inr (ULONG_MAX, apt)
        else
          let d = (if isnan dist0 then DistLatLon E (lat a) (lon a) (lat b) (lon b) else dist0);
              es = vecTaxiEdges apt @
                     [TaxiEdge_new TAXI_WAY n1 n2 (CoordAngle E (lat a) (lon a) (lat b) (lon b)) d];
              eIdx = length es - 1
          in Inr (length es - 1,
                  apt\<lparr>vecTaxiNodes := push_edge n2 eIdx (push_edge n1 eIdx ns),
                      vecTaxiEdges := es\<rparr>))"





definition AddRwyEnds ::
  "env \<Rightarrow> Apt \<Rightarrow> double \<Rightarrow> double \<Rightarrow> double \<Rightarrow> string \<Rightarrow>
   double \<Rightarrow> double \<Rightarrow> double \<Rightarrow> string \<Rightarrow> Apt" where
  "AddRwyEnds E apt lat1 lon1 displaced1 id1 lat2 lon2 displaced2 id2 =
     (let vecRwy = between E (lat1, lon1) (lat2, lon2);
          ang = fst vecRwy;
          d1 = dsub (dsub (snd vecRwy) displaced1) displaced2;
          re1 = pos_add E (lat1, lon1) (ang, dadd displaced1 (dmul d1 (ART_RWY_TD_POINT_F E)));
          re2 = pos_add E (lat2, lon2)
                  (ang, dneg (dadd displaced2 (dmul d1 (ART_RWY_TD_POINT_F E))));
          d2 = dmul d1 (dsub (Fin 1) (dmul (Fin 2) (ART_RWY_TD_POINT_F E)));
          eps = vecRwyEndPts apt @
                  [RwyEndPt_new id1 (fst re1) (snd re1), RwyEndPt_new id2 (fst re2) (snd re2)]
      in apt\<lparr>bounds := bounds apt @ [re1, re2],
             vecRwyEndPts := eps,
             vecTaxiEdges := vecTaxiEdges apt @
               [TaxiEdge_new RUN_WAY (length eps - 2) (length eps - 1) ang d2]\<rparr>)"

subsection \<open>Properties stated about the edges\<close>




text \<open>
  What \<open>AddTaxiEdge\<close> does to the node store when it registers edge \<open>eIdx\<close> on nodes
  \<open>n1\<close> and \<open>n2\<close>: each of them gets the index appended to its edge list (twice when
  \<open>n1 = n2\<close>), and nothing else changes.
\<close>

definition edge_registered :: "nat \<Rightarrow> nat \<Rightarrow> nat \<Rightarrow> TaxiNode list \<Rightarrow> TaxiNode list \<Rightarrow> bool" where
  "edge_registered n1 n2 eIdx ns ns' =
     (length ns' = length ns \<and>
      (\<forall>k < length ns. ns' ! k =
          (ns ! k)\<lparr>vecEdges := vecEdges (ns ! k) @ (if k = n1 then [eIdx] else [])
                                                 @ (if k = n2 then [eIdx] else [])\<rparr>))"

subsection \<open>A small concrete airport\<close>

text \<open>
  A crude flat-earth instance of the helpers, used to run the model on concrete
  inputs: angles are the four compass points, distances are Manhattan distances.
\<close>

fun ex_angle :: "double \<Rightarrow> double \<Rightarrow> double \<Rightarrow> double \<Rightarrow> double" where
  "ex_angle (Fin la) (Fin lo) (Fin la') (Fin lo') =
     (if la < la' then Fin 0 else if la' < la then Fin 180
      else if lo \<le> lo' then Fin 90 else Fin 270)"
| "ex_angle _ _ _ _ = NaN"

fun ex_dist :: "double \<Rightarrow> double \<Rightarrow> double \<Rightarrow> double \<Rightarrow> double" where
  "ex_dist (Fin la) (Fin lo) (Fin la') (Fin lo') = Fin (\<bar>la' - la\<bar> + \<bar>lo' - lo\<bar>)"
| "ex_dist _ _ _ _ = NaN"

text \<open>
  The difference of two headings in \<open>(-180, 180]\<close>; the squared distance of a point
  to the line through two points that lie on one meridian (equal \<open>x\<close>) or else on one
  parallel, and the foot of the perpendicular from the origin on that line.
\<close>

fun ex_hdiff :: "double \<Rightarrow> double \<Rightarrow> double" where
  "ex_hdiff (Fin a) (Fin b) =
     Fin (if 180 < b - a then b - a - 360 else if b - a \<le> - 180 then b - a + 360 else b - a)"
| "ex_hdiff _ _ = NaN"

fun ex_dist_to_line ::
  "double \<Rightarrow> double \<Rightarrow> double \<Rightarrow> double \<Rightarrow> double \<Rightarrow> double \<Rightarrow> distToLineTy" where
  "ex_dist_to_line (Fin px) (Fin py) (Fin x1) (Fin y1) (Fin x2) (Fin y2) =
     \<lparr>dist2 = Fin (if x1 = x2 then (x1 - px) * (x1 - px) else (y1 - py) * (y1 - py)),
      dtl_other = []\<rparr>"
| "ex_dist_to_line _ _ _ _ _ _ = \<lparr>dist2 = NaN, dtl_other = []\<rparr>"

fun ex_base_loc ::
  "double \<Rightarrow> double \<Rightarrow> double \<Rightarrow> double \<Rightarrow> distToLineTy \<Rightarrow> double \<times> double" where
  "ex_base_loc (Fin x1) (Fin y1) (Fin x2) (Fin y2) d =
     (if x1 = x2 then (Fin x1, Fin 0) else (Fin 0, Fin y1))"
| "ex_base_loc _ _ _ _ d = (NaN, NaN)"

definition env_ex :: env where
  "env_ex =
     \<lparr>CoordAngle = ex_angle, DistLatLon = ex_dist,
      Dist2Lat = (\<lambda>d. d), Dist2Lon = (\<lambda>d la. d),
      APT_MAX_SIMILAR_NODE_DIST_M = Fin 1,
      between = (\<lambda>p q. (ex_angle (fst p) (snd p) (fst q) (snd q),
                          ex_dist (fst p) (snd p) (fst q) (snd q))),
      pos_add = (\<lambda>p v. p),
      ART_RWY_TD_POINT_F = Fin (1 / 10),
      HeadingNormalize = (\<lambda>h. h),
      HeadingDiff = ex_hdiff,
      CoordDistance = ex_dist,
      ART_RWY_MAX_VSI_F = Fin 4,
      Ms_per_FTm = Fin 1,
      ART_APPR_SPEED_F = Fin 1,
      KT_per_M_per_S = Fin 1,
      ART_RWY_MAX_HEAD_DIFF = Fin 15,
      Lon2Dist = (\<lambda>d la. d),
      Lat2Dist = (\<lambda>d. d),
      DistPointToLineSqr = ex_dist_to_line,
      DistSqrOfBaseBeyondLine = (\<lambda>d. Fin 0),
      DistResultToBaseLoc = ex_base_loc,
      ART_EDGE_ANGLE_EXT_DIST = Fin 5,
      ART_EDGE_ANGLE_TOLERANCE = Fin 30,
      ART_EDGE_ANGLE_TOLERANCE_EXT = Fin 80,
      SIMILAR_TS_INTVL = Fin 3,
      GetFdSnapTaxiDist_m = 15\<rparr>"

definition node_ex :: "real \<Rightarrow> real \<Rightarrow> nat list \<Rightarrow> TaxiNode" where
  "node_ex la lo es = (TaxiNode_new (Fin la) (Fin lo))\<lparr>vecEdges := es\<rparr>"


text \<open>One node at the origin, and the same airport after a second node was added.\<close>

definition apt_one :: Apt where
  "apt_one = (Apt_new ''TEST'')\<lparr>vecTaxiNodes := [node_ex 0 0 []]\<rparr>"

definition apt_one_b :: Apt where
  "apt_one_b = (Apt_new ''TEST'')
     \<lparr>bounds := [(Fin (3 / 2), Fin 0)],
      vecTaxiNodes := [node_ex 0 0 [], node_ex (3 / 2) 0 []]\<rparr>"

subsection \<open>FindEdgesForHeading\<close>

text \<open>
  \<open>std::lower_bound\<close> as the standard library implements it: a binary search on a
  range given by its first position and its length. \<open>lt x\<close> is the comparison of
  the element \<open>x\<close> with the value searched for.
\<close>

function lower_bound_from :: "('a \<Rightarrow> bool) \<Rightarrow> 'a list \<Rightarrow> nat \<Rightarrow> nat \<Rightarrow> nat" where
  "lower_bound_from lt xs first len =
     (if len = 0 then first
      else let half = len div 2; middle = first + half
           in if lt (xs ! middle)
              then lower_bound_from lt xs (middle + 1) (len - half - 1)
              else lower_bound_from lt xs first half)"
  by pat_completeness auto
termination
  by (relation "measure (\<lambda>(lt, xs, first, len). len)") auto

declare lower_bound_from.simps [simp del]

text \<open>
  The inner \<open>for\<close> loop: walk the index from the lower bound while the edge's angle
  is within the range, and push the edges of the wanted type.
\<close>

fun collect_while :: "(nat \<Rightarrow> bool) \<Rightarrow> (nat \<Rightarrow> bool) \<Rightarrow> nat list \<Rightarrow> nat list \<Rightarrow> nat list" where
  "collect_while inRange typeOk [] lst = lst"
| "collect_while inRange typeOk (i # is) lst =
     (if inRange i then collect_while inRange typeOk is (if typeOk i then lst @ [i] else lst)
      else lst)"

definition heading_ranges :: "double \<Rightarrow> double \<Rightarrow> (double \<times> double) list" where
  "heading_ranges headSearch0 angleTolerance =
     (let headSearch = (if dge headSearch0 (Fin 180) then dsub headSearch0 (Fin 180)
                        else headSearch0);
          headBegin = dsub headSearch angleTolerance;
          headEnd = dadd headSearch angleTolerance
      in if dle (Fin 0) headBegin \<and> dless headEnd (Fin 180) then [(headBegin, headEnd)]
         else if dless headBegin (Fin 0)
         then [(Fin 0, headEnd), (dadd headBegin (Fin 180), Fin 180)]
         else [(Fin 0, dsub headEnd (Fin 180)), (headBegin, Fin 180)])"

definition search_range :: "Apt \<Rightarrow> nodeTy \<Rightarrow> nat list \<Rightarrow> double \<times> double \<Rightarrow> nat list" where
  "search_range apt restrictType lst rngPair =
     (let idx = vecTaxiEdgesIdxHead apt; es = vecTaxiEdges apt;
          iter = lower_bound_from (\<lambda>i. dless (angle (es ! i)) (fst rngPair)) idx 0 (length idx)
      in collect_while (\<lambda>i. dle (angle (es ! i)) (snd rngPair))
           (\<lambda>i. restrictType = UNKNOWN_WAY \<or> restrictType = etype (es ! i))
           (drop iter idx) lst)"

text \<open>
  The index vector is read without bounds checks against \<open>vecTaxiEdges\<close>; the model
  reports undefined behaviour when any of its entries is not an index of an edge.
  \<open>SortTaxiEdges\<close> fills it with a permutation of the edge indices.
\<close>

definition FindEdgesForHeading ::
  "Apt \<Rightarrow> double \<Rightarrow> double \<Rightarrow> nat list \<Rightarrow> nodeTy \<Rightarrow> error + bool \<times> nat list" where
  "FindEdgesForHeading apt headSearch angleTolerance lst restrictType =
     (if \<exists>i \<in> set (vecTaxiEdgesIdxHead apt). \<not> i < length (vecTaxiEdges apt)
      then Inl undefined_behaviour
      else let lst' = foldl (search_range apt restrictType) lst
                        (heading_ranges headSearch angleTolerance)
           in Inr (lst' \<noteq> [], lst'))"

text \<open>
  What the heading search is stated against: \<open>ang apt i\<close> is the stored angle of edge
  \<open>i\<close>; the index is in order when it lists every edge, every angle is normalised and
  the index is sorted by angle; \<open>within_tol_mod180 a h t\<close> says that the angle \<open>a\<close> is
  within \<open>t\<close> degrees of the heading \<open>h\<close> modulo 180 degrees. \<open>norm180\<close> is the search
  heading as the function normalises it, and \<open>wrap_hi\<close> and \<open>wrap_lo\<close> are the upper end
  of the sub-range at 0 degrees and the lower end of the sub-range at 180 degrees.
\<close>

definition ang :: "Apt \<Rightarrow> nat \<Rightarrow> real" where
  "ang apt i = (case angle (vecTaxiEdges apt ! i) of Fin r \<Rightarrow> r | _ \<Rightarrow> 0)"








subsection \<open>ShortestPath\<close>

text \<open>
  \<open>ULONG_MAX - 1\<close> in \<open>prevIdx\<close> marks a start node, \<open>ULONG_MAX\<close> a node that the search
  has not reached. \<open>push_back_unique\<close> is not defined in LTApt.cpp; it is modelled after
  its name and its use: it appends the element unless the vector already holds it.
\<close>

definition START_NODE :: nat where
  "START_NODE = ULONG_MAX - 1"

definition push_back_unique :: "nat list \<Rightarrow> nat \<Rightarrow> nat list" where
  "push_back_unique v x = (if x \<in> set v then v else v @ [x])"

text \<open>
  The start places: each of them gets distance zero and the start mark and is pushed
  to \<open>vecVisit\<close>. The nodes are indexed without a bounds check.
\<close>

fun seed_nodes :: "nat list \<Rightarrow> TaxiNode list \<times> nat list \<Rightarrow> error + TaxiNode list \<times> nat list" where
  "seed_nodes [] st = Inr st"
| "seed_nodes (n # rest) (ns, vecVisit) =
     (if \<not> n < length ns then Inl undefined_behaviour
      else seed_nodes rest
             (ns[n := (ns ! n)\<lparr>pathLen := Fin 0, prevIdx := START_NODE\<rparr>], vecVisit @ [n]))"

text \<open>
  The linear scan of \<open>vecVisit\<close> for the node with the shortest known distance:
  \<open>shortestIter\<close> is the position of the best element so far, \<open>i\<close> the position of
  the next element. A later element replaces the best one only if it is strictly closer.
\<close>

fun shortest_from :: "TaxiNode list \<Rightarrow> nat \<Rightarrow> double \<Rightarrow> nat \<Rightarrow> nat list \<Rightarrow> nat \<times> double" where
  "shortest_from ns shortestIter shortestDist i [] = (shortestIter, shortestDist)"
| "shortest_from ns shortestIter shortestDist i (v # vs) =
     (if dless (pathLen (ns ! v)) shortestDist
      then shortest_from ns i (pathLen (ns ! v)) (Suc i) vs
      else shortest_from ns shortestIter shortestDist (Suc i) vs)"

text \<open>
  The inner loop over the edges of the node just visited. Reaching the end node leaves
  the loop (\<open>break\<close>); the end node is not pushed to \<open>vecVisit\<close>.
\<close>

fun relax_edges ::
  "TaxiEdge list \<Rightarrow> nat \<Rightarrow> double \<Rightarrow> nat \<Rightarrow> double \<Rightarrow> nat list \<Rightarrow>
   TaxiNode list \<times> nat list \<Rightarrow> error + TaxiNode list \<times> nat list" where
  "relax_edges es shortestNIdx shortestDist endN maxLen [] st = Inr st"
| "relax_edges es shortestNIdx shortestDist endN maxLen (eIdx # rest) (ns, vecVisit) =
     (if \<not> eIdx < length es then Inl undefined_behaviour
      else let updNIdx = otherNode (es ! eIdx) shortestNIdx in
        if \<not> updNIdx < length ns then Inl undefined_behaviour
        else if bVisited (ns ! updNIdx)
        then relax_edges es shortestNIdx shortestDist endN maxLen rest (ns, vecVisit)
        else let lenToUpd = dadd shortestDist (dist_m (es ! eIdx)) in
          if dgt lenToUpd maxLen \<or> dle (pathLen (ns ! updNIdx)) lenToUpd
          then relax_edges es shortestNIdx shortestDist endN maxLen rest (ns, vecVisit)
          else let ns' = ns[updNIdx := (ns ! updNIdx)\<lparr>pathLen := lenToUpd,
                                                        prevIdx := shortestNIdx\<rparr>] in
            if updNIdx = endN then Inr (ns', vecVisit)
            else relax_edges es shortestNIdx shortestDist endN maxLen rest
                   (ns', push_back_unique vecVisit updNIdx))"

text \<open>
  One pass of the outer loop, \<open>visit_next\<close>, and the measure that every pass decreases:
  the length of \<open>vecVisit\<close> plus the number of unvisited nodes that are not in it.
\<close>

definition visit_measure :: "TaxiNode list \<times> nat list \<Rightarrow> nat" where
  "visit_measure st =
     length (snd st) +
     card {n. n < length (fst st) \<and> \<not> bVisited (fst st ! n) \<and> n \<notin> set (snd st)}"

definition visit_next ::
  "TaxiEdge list \<Rightarrow> nat \<Rightarrow> double \<Rightarrow> TaxiNode list \<times> nat list \<Rightarrow>
   error + TaxiNode list \<times> nat list" where
  "visit_next es endN maxLen st =
     (let ns = fst st; vecVisit = snd st in
      if \<exists>v \<in> set vecVisit. \<not> v < length ns then Inl undefined_behaviour
      else
        let sel = shortest_from ns 0 (pathLen (ns ! hd vecVisit)) 1 (tl vecVisit);
            shortestNIdx = vecVisit ! fst sel;
            ns1 = ns[shortestNIdx := (ns ! shortestNIdx)\<lparr>bVisited := True\<rparr>];
            vecVisit1 = take (fst sel) vecVisit @ drop (Suc (fst sel)) vecVisit
        in relax_edges es shortestNIdx (snd sel) endN maxLen (vecEdges (ns1 ! shortestNIdx))
             (ns1, vecVisit1))"

lemma shortest_from_pos:
  "b < i \<Longrightarrow> fst (shortest_from ns b d i vs) < i + length vs"
proof (induction vs arbitrary: b d i)
  case Nil
  then show ?case by simp
next
  case (Cons v vs)
  have "fst (shortest_from ns i (pathLen (ns ! v)) (Suc i) vs) < Suc i + length vs"
    by (rule Cons.IH) simp
  moreover have "fst (shortest_from ns b d (Suc i) vs) < Suc i + length vs"
    by (rule Cons.IH) (use Cons.prems in simp)
  ultimately show ?case by simp
qed

lemma visit_measure_push:
  assumes "u < length ns" "\<not> bVisited (ns ! u)" "length ns' = length ns"
    "\<forall>n < length ns. bVisited (ns' ! n) = bVisited (ns ! n)"
  shows "visit_measure (ns', push_back_unique vv u) \<le> visit_measure (ns, vv)"
proof (cases "u \<in> set vv")
  case True
  have "{n. n < length ns' \<and> \<not> bVisited (ns' ! n) \<and> n \<notin> set vv} =
        {n. n < length ns \<and> \<not> bVisited (ns ! n) \<and> n \<notin> set vv}"
    using assms(3,4) by auto
  with True show ?thesis by (simp add: visit_measure_def push_back_unique_def)
next
  case False
  let ?S = "{n. n < length ns \<and> \<not> bVisited (ns ! n) \<and> n \<notin> set vv}"
  have fin: "finite ?S" by simp
  have "{n. n < length ns' \<and> \<not> bVisited (ns' ! n) \<and> n \<notin> set (vv @ [u])} = ?S - {u}"
    using assms(3,4) by auto
  moreover have "u \<in> ?S" using assms(1,2) False by simp
  then have "card (?S - {u}) < card ?S" using fin by (meson card_Diff1_less)
  ultimately show ?thesis using False
    by (simp add: visit_measure_def push_back_unique_def)
qed

lemma visit_measure_same:
  assumes "length ns' = length ns"
    "\<forall>n < length ns. bVisited (ns' ! n) = bVisited (ns ! n)"
  shows "visit_measure (ns', vv) = visit_measure (ns, vv)"
proof -
  have "{n. n < length ns' \<and> \<not> bVisited (ns' ! n) \<and> n \<notin> set vv} =
        {n. n < length ns \<and> \<not> bVisited (ns ! n) \<and> n \<notin> set vv}"
    using assms by auto
  then show ?thesis by (simp add: visit_measure_def)
qed

lemma relax_edges_measure:
  "relax_edges es s sd endN maxLen l (ns, vv) = Inr st' \<Longrightarrow>
   visit_measure st' \<le> visit_measure (ns, vv)"
proof (induction l arbitrary: ns vv)
  case Nil
  then show ?case by simp
next
  case (Cons eIdx rest)
  let ?u = "otherNode (es ! eIdx) s"
  let ?len = "dadd sd (dist_m (es ! eIdx))"
  let ?ns' = "ns[?u := (ns ! ?u)\<lparr>pathLen := ?len, prevIdx := s\<rparr>]"
  from Cons.prems have r: "eIdx < length es" "?u < length ns"
    by (auto simp: Let_def split: if_splits)
  show ?case
  proof (cases "bVisited (ns ! ?u) \<or> dgt ?len maxLen \<or> dle (pathLen (ns ! ?u)) ?len")
    case True
    with Cons.prems r have "relax_edges es s sd endN maxLen rest (ns, vv) = Inr st'"
      by (auto simp: Let_def split: if_splits)
    then show ?thesis by (rule Cons.IH)
  next
    case False
    have same: "length ?ns' = length ns" "\<forall>n < length ns. bVisited (?ns' ! n) = bVisited (ns ! n)"
      using r(2) by (simp_all add: nth_list_update)
    show ?thesis
    proof (cases "?u = endN")
      case True
      with False Cons.prems r have "st' = (?ns', vv)" by (auto simp: Let_def)
      with visit_measure_same[OF same] show ?thesis by simp
    next
      case F2: False
      with False Cons.prems r have
        "relax_edges es s sd endN maxLen rest (?ns', push_back_unique vv ?u) = Inr st'"
        by (auto simp: Let_def)
      from Cons.IH[OF this] have "visit_measure st' \<le> visit_measure (?ns', push_back_unique vv ?u)" .
      also from False r have "\<dots> \<le> visit_measure (ns, vv)"
        by (intro visit_measure_push same) auto
      finally show ?thesis .
    qed
  qed
qed

lemma visit_measure_pop:
  assumes "pos < length vv" "vv ! pos < length ns"
  shows "visit_measure (ns[vv ! pos := (ns ! (vv ! pos))\<lparr>bVisited := True\<rparr>],
                        take pos vv @ drop (Suc pos) vv) < visit_measure (ns, vv)"
proof -
  let ?x = "vv ! pos"
  let ?ns1 = "ns[?x := (ns ! ?x)\<lparr>bVisited := True\<rparr>]"
  let ?vv1 = "take pos vv @ drop (Suc pos) vv"
  let ?S = "{n. n < length ns \<and> \<not> bVisited (ns ! n) \<and> n \<notin> set vv}"
  let ?S1 = "{n. n < length ?ns1 \<and> \<not> bVisited (?ns1 ! n) \<and> n \<notin> set ?vv1}"
  have vv: "vv = take pos vv @ ?x # drop (Suc pos) vv"
    using assms(1) by (simp add: id_take_nth_drop)
  have "set vv = insert ?x (set ?vv1)"
    by (subst vv) simp
  then have "?S1 \<subseteq> ?S" using assms(2) by (auto simp: nth_list_update split: if_splits)
  then have "card ?S1 \<le> card ?S" by (intro card_mono) simp_all
  moreover have "length ?vv1 < length vv" using assms(1) by simp
  ultimately show ?thesis by (simp add: visit_measure_def)
qed

lemma visit_next_measure:
  assumes "snd st \<noteq> []" "visit_next es endN maxLen st = Inr st'"
  shows "visit_measure st' < visit_measure st"
proof -
  obtain ns vv where st: "st = (ns, vv)" by (cases st)
  let ?sel = "shortest_from ns 0 (pathLen (ns ! hd vv)) 1 (tl vv)"
  let ?x = "vv ! fst ?sel"
  let ?ns1 = "ns[?x := (ns ! ?x)\<lparr>bVisited := True\<rparr>]"
  let ?vv1 = "take (fst ?sel) vv @ drop (Suc (fst ?sel)) vv"
  from assms st have valid: "\<forall>v \<in> set vv. v < length ns"
    by (auto simp: visit_next_def Let_def split: if_splits)
  from assms(1) st shortest_from_pos[of 0 1 ns "pathLen (ns ! hd vv)" "tl vv"]
  have pos: "fst ?sel < length vv" by simp
  with valid have x: "?x < length ns" by simp
  from assms(2) st valid
  have "relax_edges es ?x (snd ?sel) endN maxLen (vecEdges (?ns1 ! ?x)) (?ns1, ?vv1) = Inr st'"
    by (auto simp: visit_next_def Let_def split: if_splits)
  from relax_edges_measure[OF this] visit_measure_pop[OF pos x] st
  show ?thesis by simp
qed

function dijkstra_loop ::
  "TaxiEdge list \<Rightarrow> nat \<Rightarrow> double \<Rightarrow> TaxiNode list \<times> nat list \<Rightarrow>
   error + TaxiNode list \<times> nat list" where
  "dijkstra_loop es endN maxLen st =
     (if snd st = [] \<or> prevIdx (fst st ! endN) \<noteq> ULONG_MAX then Inr st
      else case visit_next es endN maxLen st of
             Inl e \<Rightarrow> Inl e
           | Inr st' \<Rightarrow> dijkstra_loop es endN maxLen st')"
  by pat_completeness auto
termination
  by (relation "measure (\<lambda>(es, endN, maxLen, st). visit_measure st)")
     (auto intro: visit_next_measure)

declare dijkstra_loop.simps [simp del]

text \<open>
  The final loop follows \<open>prevIdx\<close> from the end node until it meets a start node. It
  does not return if the \<open>prevIdx\<close> fields are cyclic, so its result is an option.
\<close>

partial_function (option) walk_back ::
  "TaxiNode list \<Rightarrow> nat \<Rightarrow> nat list \<Rightarrow> (error + nat list) option" where
  "walk_back ns nIdx vecVisit =
     (if \<not> nIdx < length ns then Some (Inl out_of_range)
      else if prevIdx (ns ! nIdx) = START_NODE then Some (Inr vecVisit)
      else walk_back ns (prevIdx (ns ! nIdx)) (vecVisit @ [nIdx]))"

declare walk_back.simps [code]

definition ShortestPath ::
  "Apt \<Rightarrow> nat \<Rightarrow> bool \<Rightarrow> nat \<Rightarrow> double \<Rightarrow> (error + nat list \<times> Apt) option" where
  "ShortestPath apt startN bStartIsRwy endN maxLen =
     (if \<not> bStartIsRwy \<and> startN = endN then Some (Inr ([], apt))
      else
        let ns0 = map InitDijkstraAttr (vecTaxiNodes apt) in
        case (if bStartIsRwy
              then (if \<not> startN < length (vecRwyEndPts apt) then Inl out_of_range
                    else seed_nodes (ep_vecTaxiNodes (vecRwyEndPts apt ! startN)) (ns0, []))
              else (if \<not> startN < length ns0 then Inl out_of_range
                    else seed_nodes [startN] (ns0, []))) of
          Inl e \<Rightarrow> Some (Inl e)
        | Inr st0 \<Rightarrow>
            if \<not> endN < length ns0 then Some (Inl undefined_behaviour)
            else case dijkstra_loop (vecTaxiEdges apt) endN maxLen st0 of
                Inl e \<Rightarrow> Some (Inl e)
              | Inr st \<Rightarrow>
                  if prevIdx (fst st ! endN) = ULONG_MAX
                  then Some (Inr ([], apt\<lparr>vecTaxiNodes := fst st\<rparr>))
                  else map_option (map_sum id (\<lambda>p. (p, apt\<lparr>vecTaxiNodes := fst st\<rparr>)))
                         (walk_back (fst st) endN []))"

text \<open>
  What the search is stated against. \<open>chain es maxLen S ns n steps\<close>: following
  \<open>prevIdx\<close> from node \<open>n\<close> leads through visited nodes to a start node of \<open>S\<close>;
  \<open>steps\<close> lists, from the start node on, the edge taken and the node reached, and
  every reached node stores the distance of its predecessor plus the edge's length,
  which is within \<open>maxLen\<close>. \<open>search_inv\<close> is the invariant of the outer loop.
  \<open>walk_ok apt n steps\<close> says that \<open>steps\<close> is a walk in the airport's own taxi
  graph from node \<open>n\<close>, and \<open>walk_len\<close> sums its edge lengths from the start on, as
  the search does.
\<close>

inductive chain ::
  "TaxiEdge list \<Rightarrow> double \<Rightarrow> nat set \<Rightarrow> TaxiNode list \<Rightarrow> nat \<Rightarrow> (nat \<times> nat) list \<Rightarrow> bool"
  for es :: "TaxiEdge list" and maxLen :: double and S :: "nat set" and ns :: "TaxiNode list"
  where
    chain_seed:
      "n < length ns \<Longrightarrow> n \<in> S \<Longrightarrow> prevIdx (ns ! n) = START_NODE \<Longrightarrow>
       pathLen (ns ! n) = Fin 0 \<Longrightarrow> chain es maxLen S ns n []"
  | chain_step:
      "chain es maxLen S ns p steps \<Longrightarrow> bVisited (ns ! p) \<Longrightarrow> n < length ns \<Longrightarrow>
       prevIdx (ns ! n) = p \<Longrightarrow> e \<in> set (vecEdges (ns ! p)) \<Longrightarrow> e < length es \<Longrightarrow>
       otherNode (es ! e) p = n \<Longrightarrow>
       pathLen (ns ! n) = dadd (pathLen (ns ! p)) (dist_m (es ! e)) \<Longrightarrow>
       dle (pathLen (ns ! n)) maxLen \<Longrightarrow>
       chain es maxLen S ns n (steps @ [(e, n)])"


fun walk_ok :: "Apt \<Rightarrow> nat \<Rightarrow> (nat \<times> nat) list \<Rightarrow> bool" where
  "walk_ok apt n [] = True"
| "walk_ok apt n (s # rest) =
     (n < length (vecTaxiNodes apt) \<and> fst s \<in> set (vecEdges (vecTaxiNodes apt ! n)) \<and>
      fst s < length (vecTaxiEdges apt) \<and> otherNode (vecTaxiEdges apt ! fst s) n = snd s \<and>
      walk_ok apt (snd s) rest)"

definition walk_len :: "Apt \<Rightarrow> (nat \<times> nat) list \<Rightarrow> double" where
  "walk_len apt steps = foldl dadd (Fin 0) (map (\<lambda>s. dist_m (vecTaxiEdges apt ! fst s)) steps)"





text \<open>
  A runway with a taxiway triangle at its first end: the direct edge from node 0 to
  node 2 is 10 long and is the first edge of node 0, the detour over node 1 is 2 long.
  \<open>searched\<close> gives a node the Dijkstra attributes that a search has left.
\<close>

definition searched :: "TaxiNode \<Rightarrow> double \<Rightarrow> nat \<Rightarrow> bool \<Rightarrow> TaxiNode" where
  "searched n len prev visited = n\<lparr>pathLen := len, prevIdx := prev, bVisited := visited\<rparr>"

definition apt_tri :: Apt where
  "apt_tri = (Apt_new ''TEST'')
     \<lparr>vecTaxiNodes := [node_ex 0 0 [0, 1], node_ex 1 0 [1, 2], node_ex 2 0 [0, 2]],
      vecRwyEndPts := [(RwyEndPt_new ''09'' (Fin 0) (Fin 5))\<lparr>ep_vecTaxiNodes := [0]\<rparr>,
                       RwyEndPt_new ''27'' (Fin 0) (Fin 9)],
      vecTaxiEdges :=
        [\<lparr>etype = TAXI_WAY, node_a = 0, node_b = 2, angle = Fin 0, dist_m = Fin 10\<rparr>,
         \<lparr>etype = TAXI_WAY, node_a = 0, node_b = 1, angle = Fin 0, dist_m = Fin 1\<rparr>,
         \<lparr>etype = TAXI_WAY, node_a = 1, node_b = 2, angle = Fin 0, dist_m = Fin 1\<rparr>,
         \<lparr>etype = RUN_WAY, node_a = 0, node_b = 1, angle = Fin 90, dist_m = Fin 4\<rparr>]\<rparr>"

definition apt_tri_direct :: Apt where
  "apt_tri_direct = apt_tri
     \<lparr>vecTaxiNodes := [searched (node_ex 0 0 [0, 1]) (Fin 0) START_NODE True,
                       searched (node_ex 1 0 [1, 2]) PInf ULONG_MAX False,
                       searched (node_ex 2 0 [0, 2]) (Fin 10) 0 False]\<rparr>"


definition apt_tri_near :: Apt where
  "apt_tri_near = apt_tri
     \<lparr>vecTaxiNodes := [searched (node_ex 0 0 [0, 1]) (Fin 0) START_NODE True,
                       searched (node_ex 1 0 [1, 2]) (Fin 1) 0 False,
                       searched (node_ex 2 0 [0, 2]) (Fin 10) 0 False]\<rparr>"

subsection \<open>Airports as the builder makes them\<close>

text \<open>
  \<open>built E apt\<close>: the airport is the result of the operations that LTApt.cpp applies
  to an airport while it reads apt.dat and when it adds the airport to the map:
  \<open>AddTaxiNode\<close>, \<open>AddTaxiNodeFixed\<close>, \<open>AddTaxiEdge\<close> and \<open>AddRwyEnds\<close> from the reader, and
  the steps of \<open>JoinOpenTaxiEdges\<close> and \<open>SortTaxiEdges\<close>: a taxi node is registered at a
  runway end, a taxi node is moved, an edge is recalculated, an edge that is not a
  runway is split, the index is rewritten. \<open>edge_ends_valid\<close> says that the type of
  every edge names the store that holds both of its nodes.
\<close>

definition edge_ends_valid :: "Apt \<Rightarrow> bool" where
  "edge_ends_valid apt =
     (\<forall>e \<in> set (vecTaxiEdges apt).
        (etype e = RUN_WAY \<and> node_a e < length (vecRwyEndPts apt) \<and>
                              node_b e < length (vecRwyEndPts apt)) \<or>
        (etype e = TAXI_WAY \<and> node_a e < length (vecTaxiNodes apt) \<and>
                               node_b e < length (vecTaxiNodes apt)))"


definition ends_in :: "TaxiEdge \<Rightarrow> nat \<Rightarrow> nat \<Rightarrow> bool" where
  "ends_in e nr nt =
     ((etype e = RUN_WAY \<and> node_a e < nr \<and> node_b e < nr) \<or>
      (etype e = TAXI_WAY \<and> node_a e < nt \<and> node_b e < nt))"



definition apt_rwy :: Apt where
  "apt_rwy = AddRwyEnds env_ex (Apt_new ''TEST'') (Fin 0) (Fin 0) (Fin 0) ''09''
               (Fin 0) (Fin 10) (Fin 0) ''27''"


subsection \<open>LTAptFindRwy\<close>

text \<open>
  Modelled from the spec: \<open>positionTy\<close>, \<open>LTAircraft\<close> and its flight model are declared in
  other files. The model keeps the fields that LTApt.cpp reads or writes: a position with
  its timestamp, heading, pitch, roll, ground flag, flight phase and the edge it was
  snapped to (unknown, not available, or the index of an edge); the default position has
  no coordinates. Of the flight phases only the ones that LTApt.cpp names are told apart.
\<close>

datatype onGrndE = GND_UNKNOWN | GND_OFF | GND_ON

datatype flightPhaseE = FPH_UNKNOWN | FPH_TAXI | FPH_TOUCH_DOWN | FPH_OTHER nat

datatype edgeTag = EDGE_UNKNOWN | EDGE_UNAVAIL | EDGE nat

record positionTy =
  p_lat :: double
  p_lon :: double
  p_alt_m :: double
  p_ts :: double
  p_heading :: double
  p_pitch :: double
  p_roll :: double
  p_onGrnd :: onGrndE
  p_flightPhase :: flightPhaseE
  p_edgeIdx :: edgeTag

definition positionTy_default :: positionTy where
  "positionTy_default =
     \<lparr>p_lat = NaN, p_lon = NaN, p_alt_m = NaN, p_ts = NaN, p_heading = NaN, p_pitch = NaN,
      p_roll = NaN, p_onGrnd = GND_UNKNOWN, p_flightPhase = FPH_UNKNOWN,
      p_edgeIdx = EDGE_UNKNOWN\<rparr>"

record FlightModel =
  VSI_FINAL :: double
  FLAPS_DOWN_SPEED :: double
  PITCH_FLARE :: double
  MAX_TAXI_SPEED :: double

record LTAircraft =
  GetToPos :: positionTy
  GetSpeed_m_s :: double
  mdl :: FlightModel

text \<open>
  \<open>GetRwyEP_A\<close> and \<open>GetRwyEP_B\<close> cast the node of a runway edge to a runway endpoint;
  the cast of a taxi node throws.
\<close>

definition GetRwyEP_A :: "TaxiEdge \<Rightarrow> Apt \<Rightarrow> error + RwyEndPt" where
  "GetRwyEP_A e apt =
     (if etype e = RUN_WAY
      then (if node_a e < length (vecRwyEndPts apt) then Inr (vecRwyEndPts apt ! node_a e)
            else Inl undefined_behaviour)
      else (if node_a e < length (vecTaxiNodes apt) then Inl bad_cast
            else Inl undefined_behaviour))"

definition GetRwyEP_B :: "TaxiEdge \<Rightarrow> Apt \<Rightarrow> error + RwyEndPt" where
  "GetRwyEP_B e apt =
     (if etype e = RUN_WAY
      then (if node_b e < length (vecRwyEndPts apt) then Inr (vecRwyEndPts apt ! node_b e)
            else Inl undefined_behaviour)
      else (if node_b e < length (vecTaxiNodes apt) then Inl bad_cast
            else Inl undefined_behaviour))"

text \<open>
  The search of \<open>LTAptFindRwy\<close>: \<open>rwy_best\<close> holds the five variables of the best match,
  \<open>rwy_search\<close> the values computed from the aircraft before the loops. \<open>rwy_step\<close> is the
  body of the inner loop over the runways found in one airport, \<open>apt_step\<close> the body of the
  loop over the airports, which the map holds in the order of their keys.
\<close>

record rwy_best =
  bestApt :: "string option"
  bestRwy :: "TaxiEdge option"
  bestRwyEndPt :: "RwyEndPt option"
  bestHeadingDiff :: double
  bestArrivalTS :: double

record rwy_search =
  rs_from :: positionTy
  rs_headSearch :: double
  rs_bHeadInverted :: bool
  rs_speed_m_s :: double
  rs_vsi_min :: double
  rs_vsi_max :: double

definition rwy_search_of :: "env \<Rightarrow> LTAircraft \<Rightarrow> rwy_search" where
  "rwy_search_of E ac =
     (let headSearch = HeadingNormalize E (p_heading (GetToPos ac)) in
      \<lparr>rs_from = GetToPos ac,
       rs_headSearch = (if dge headSearch (Fin 180) then dsub headSearch (Fin 180) else headSearch),
       rs_bHeadInverted = dge headSearch (Fin 180),
       rs_speed_m_s = dmin (GetSpeed_m_s ac)
                        (ddiv (dmul (FLAPS_DOWN_SPEED (mdl ac)) (ART_APPR_SPEED_F E))
                              (KT_per_M_per_S E)),
       rs_vsi_min = dmul (dmul (VSI_FINAL (mdl ac)) (ART_RWY_MAX_VSI_F E)) (Ms_per_FTm E),
       rs_vsi_max = dmul (ddiv (VSI_FINAL (mdl ac)) (ART_RWY_MAX_VSI_F E)) (Ms_per_FTm E)\<rparr>)"

definition rwy_headingDiff :: "env \<Rightarrow> rwy_search \<Rightarrow> RwyEndPt \<Rightarrow> double" where
  "rwy_headingDiff E rs rwyEP =
     dabs (HeadingDiff E (p_heading (rs_from rs))
             (CoordAngle E (p_lat (rs_from rs)) (p_lon (rs_from rs)) (lat rwyEP) (lon rwyEP)))"

definition rwy_d_ts :: "env \<Rightarrow> rwy_search \<Rightarrow> RwyEndPt \<Rightarrow> double" where
  "rwy_d_ts E rs rwyEP =
     ddiv (CoordDistance E (p_lat (rs_from rs)) (p_lon (rs_from rs)) (lat rwyEP) (lon rwyEP))
          (rs_speed_m_s rs)"

definition rwy_vsi :: "env \<Rightarrow> rwy_search \<Rightarrow> RwyEndPt \<Rightarrow> double" where
  "rwy_vsi E rs rwyEP =
     ddiv (dsub (ep_alt_m rwyEP) (p_alt_m (rs_from rs))) (rwy_d_ts E rs rwyEP)"

definition rwy_step ::
  "env \<Rightarrow> rwy_search \<Rightarrow> string \<Rightarrow> Apt \<Rightarrow> rwy_best \<Rightarrow> nat \<Rightarrow> error + rwy_best" where
  "rwy_step E rs key apt best eIdx =
     (if \<not> eIdx < length (vecTaxiEdges apt) then Inl undefined_behaviour
      else let e = vecTaxiEdges apt ! eIdx in
        case (if rs_bHeadInverted rs then GetRwyEP_B e apt else GetRwyEP_A e apt) of
          Inl x \<Rightarrow> Inl x
        | Inr rwyEP \<Rightarrow>
            if isnan (ep_alt_m rwyEP) then Inr best
            else if dgt (rwy_headingDiff E rs rwyEP) (bestHeadingDiff best) then Inr best
            else if dless (rwy_vsi E rs rwyEP) (rs_vsi_min rs) \<or>
                    dgt (rwy_vsi E rs rwyEP) (rs_vsi_max rs) then Inr best
            else Inr \<lparr>bestApt = Some key, bestRwy = Some e, bestRwyEndPt = Some rwyEP,
                      bestHeadingDiff = rwy_headingDiff E rs rwyEP,
                      bestArrivalTS = dadd (p_ts (rs_from rs)) (rwy_d_ts E rs rwyEP)\<rparr>)"

fun fold_err :: "('s \<Rightarrow> 'x \<Rightarrow> error + 's) \<Rightarrow> 's \<Rightarrow> 'x list \<Rightarrow> error + 's" where
  "fold_err f s [] = Inr s"
| "fold_err f s (x # xs) = (case f s x of Inl e \<Rightarrow> Inl e | Inr s' \<Rightarrow> fold_err f s' xs)"

definition apt_step :: "env \<Rightarrow> rwy_search \<Rightarrow> rwy_best \<Rightarrow> string \<times> Apt \<Rightarrow> error + rwy_best" where
  "apt_step E rs best ka =
     (case FindEdgesForHeading (snd ka) (rs_headSearch rs) (ART_RWY_MAX_HEAD_DIFF E) [] RUN_WAY of
        Inl x \<Rightarrow> Inl x
      | Inr r \<Rightarrow> if fst r then fold_err (rwy_step E rs (fst ka) (snd ka)) best (snd r)
                 else Inr best)"

definition find_best :: "env \<Rightarrow> LTAircraft \<Rightarrow> (string \<times> Apt) list \<Rightarrow> error + rwy_best" where
  "find_best E ac gmapApt =
     fold_err (apt_step E (rwy_search_of E ac))
       \<lparr>bestApt = None, bestRwy = None, bestRwyEndPt = None,
        bestHeadingDiff = ART_RWY_MAX_HEAD_DIFF E, bestArrivalTS = NaN\<rparr>
       gmapApt"

definition LTAptFindRwy :: "env \<Rightarrow> LTAircraft \<Rightarrow> (string \<times> Apt) list \<Rightarrow> error + positionTy" where
  "LTAptFindRwy E ac gmapApt =
     (case find_best E ac gmapApt of
        Inl x \<Rightarrow> Inl x
      | Inr best \<Rightarrow>
          (case (bestRwyEndPt best, bestApt best, bestRwy best) of
             (Some ep, Some a, Some e) \<Rightarrow>
               Inr \<lparr>p_lat = lat ep, p_lon = lon ep, p_alt_m = ep_alt_m ep,
                    p_ts = bestArrivalTS best,
                    p_heading = dadd (angle e)
                                  (if rs_bHeadInverted (rwy_search_of E ac) then Fin 180 else Fin 0),
                    p_pitch = PITCH_FLARE (mdl ac), p_roll = Fin 0, p_onGrnd = GND_ON,
                    p_flightPhase = FPH_TOUCH_DOWN, p_edgeIdx = EDGE_UNKNOWN\<rparr>
           | _ \<Rightarrow> Inr positionTy_default))"

text \<open>
  What the runway search is stated against. A candidate is a runway edge found by the
  heading search in one airport, with the endpoint the aircraft would aim at;
  \<open>rwy_cands\<close> lists the candidates in the order in which the loops meet them.
  \<open>cand_dev\<close> is the deviation of the bearing to the endpoint from the aircraft's heading,
  \<open>cand_passes\<close> the altitude and vertical-speed checks. \<open>wins cs c\<close>: the candidate \<open>c\<close>
  passes the checks, its deviation is at most the allowed maximum, at most the deviation
  of every passing candidate met before it and less than the deviation of every passing
  candidate met after it. \<open>none_fits\<close>: every passing candidate deviates by more than the
  maximum. \<open>best_inv\<close> is the invariant of both loops.
\<close>

type_synonym rwy_cand = "string \<times> TaxiEdge \<times> RwyEndPt"

definition rwy_cand :: "rwy_search \<Rightarrow> string \<Rightarrow> Apt \<Rightarrow> nat \<Rightarrow> rwy_cand" where
  "rwy_cand rs key apt eIdx =
     (let e = vecTaxiEdges apt ! eIdx in
      (key, e, vecRwyEndPts apt ! (if rs_bHeadInverted rs then node_b e else node_a e)))"

definition found_rwys :: "env \<Rightarrow> rwy_search \<Rightarrow> Apt \<Rightarrow> nat list" where
  "found_rwys E rs apt =
     (case FindEdgesForHeading apt (rs_headSearch rs) (ART_RWY_MAX_HEAD_DIFF E) [] RUN_WAY of
        Inl x \<Rightarrow> [] | Inr r \<Rightarrow> snd r)"

definition rwy_cands :: "env \<Rightarrow> rwy_search \<Rightarrow> (string \<times> Apt) list \<Rightarrow> rwy_cand list" where
  "rwy_cands E rs gmapApt =
     concat (map (\<lambda>ka. map (rwy_cand rs (fst ka) (snd ka)) (found_rwys E rs (snd ka))) gmapApt)"

definition cand_dev :: "env \<Rightarrow> rwy_search \<Rightarrow> rwy_cand \<Rightarrow> double" where
  "cand_dev E rs c = rwy_headingDiff E rs (snd (snd c))"

definition cand_passes :: "env \<Rightarrow> rwy_search \<Rightarrow> rwy_cand \<Rightarrow> bool" where
  "cand_passes E rs c =
     (\<not> isnan (ep_alt_m (snd (snd c))) \<and>
      \<not> dless (rwy_vsi E rs (snd (snd c))) (rs_vsi_min rs) \<and>
      \<not> dgt (rwy_vsi E rs (snd (snd c))) (rs_vsi_max rs))"

definition devs_numeric :: "env \<Rightarrow> rwy_search \<Rightarrow> rwy_cand list \<Rightarrow> bool" where
  "devs_numeric E rs cs =
     ((\<exists>m. ART_RWY_MAX_HEAD_DIFF E = Fin m) \<and> (\<forall>c \<in> set cs. \<exists>d. cand_dev E rs c = Fin d))"

definition wins :: "env \<Rightarrow> rwy_search \<Rightarrow> rwy_cand list \<Rightarrow> rwy_cand \<Rightarrow> bool" where
  "wins E rs cs c =
     (\<exists>pre post. cs = pre @ c # post \<and> cand_passes E rs c \<and>
        dle (cand_dev E rs c) (ART_RWY_MAX_HEAD_DIFF E) \<and>
        (\<forall>x \<in> set pre. cand_passes E rs x \<longrightarrow> dle (cand_dev E rs c) (cand_dev E rs x)) \<and>
        (\<forall>x \<in> set post. cand_passes E rs x \<longrightarrow> dless (cand_dev E rs c) (cand_dev E rs x)))"

definition best_is :: "env \<Rightarrow> rwy_search \<Rightarrow> rwy_best \<Rightarrow> rwy_cand \<Rightarrow> bool" where
  "best_is E rs best c =
     (bestApt best = Some (fst c) \<and> bestRwy best = Some (fst (snd c)) \<and>
      bestRwyEndPt best = Some (snd (snd c)) \<and> bestHeadingDiff best = cand_dev E rs c \<and>
      bestArrivalTS best = dadd (p_ts (rs_from rs)) (rwy_d_ts E rs (snd (snd c))))"

definition none_fits :: "env \<Rightarrow> rwy_search \<Rightarrow> rwy_cand list \<Rightarrow> bool" where
  "none_fits E rs cs =
     (\<forall>x \<in> set cs. cand_passes E rs x \<longrightarrow> \<not> dle (cand_dev E rs x) (ART_RWY_MAX_HEAD_DIFF E))"

definition best_inv :: "env \<Rightarrow> rwy_search \<Rightarrow> rwy_cand list \<Rightarrow> rwy_best \<Rightarrow> bool" where
  "best_inv E rs seen best =
     (if bestRwyEndPt best = None
      then bestHeadingDiff best = ART_RWY_MAX_HEAD_DIFF E \<and> none_fits E rs seen
      else (\<exists>c. wins E rs seen c \<and> best_is E rs best c))"


text \<open>
  \<open>apts_ok\<close>: in every airport of the map the heading index holds edge indices only and
  every edge has its nodes in the store its type selects. \<open>touches_down_at pos c\<close>: the
  position is the touch-down position built from the candidate \<open>c\<close>.
\<close>

definition apts_ok :: "(string \<times> Apt) list \<Rightarrow> bool" where
  "apts_ok gmapApt =
     (\<forall>ka \<in> set gmapApt. edge_ends_valid (snd ka) \<and>
        (\<forall>i \<in> set (vecTaxiEdgesIdxHead (snd ka)). i < length (vecTaxiEdges (snd ka))))"

definition rwy_ep :: "rwy_cand \<Rightarrow> RwyEndPt" where
  "rwy_ep c = snd (snd c)"

definition touches_down_at :: "env \<Rightarrow> LTAircraft \<Rightarrow> positionTy \<Rightarrow> rwy_cand \<Rightarrow> bool" where
  "touches_down_at E ac pos c =
     (p_lat pos = lat (rwy_ep c) \<and> p_lon pos = lon (rwy_ep c) \<and>
      p_alt_m pos = ep_alt_m (rwy_ep c) \<and>
      p_ts pos = dadd (p_ts (GetToPos ac)) (rwy_d_ts E (rwy_search_of E ac) (rwy_ep c)) \<and>
      p_heading pos = dadd (angle (fst (snd c)))
                        (if rs_bHeadInverted (rwy_search_of E ac) then Fin 180 else Fin 0) \<and>
      p_onGrnd pos = GND_ON \<and> p_flightPhase pos = FPH_TOUCH_DOWN)"

text \<open>
  An aircraft at the origin heading east, 30 m above two runways whose near ends lie due
  east of it in 10 and 30 distance units.
\<close>

definition ac_ex :: LTAircraft where
  "ac_ex =
     \<lparr>GetToPos = positionTy_default
         \<lparr>p_lat := Fin 0, p_lon := Fin 0, p_alt_m := Fin 30, p_ts := Fin 0, p_heading := Fin 90\<rparr>,
      GetSpeed_m_s = Fin 1,
      mdl = \<lparr>VSI_FINAL = Fin (- 1), FLAPS_DOWN_SPEED = Fin 1, PITCH_FLARE = Fin 2,
             MAX_TAXI_SPEED = Fin 1\<rparr>\<rparr>"

definition rwy_end_ex :: "string \<Rightarrow> real \<Rightarrow> RwyEndPt" where
  "rwy_end_ex i lo = (RwyEndPt_new i (Fin 0) (Fin lo))\<lparr>ep_alt_m := Fin 0\<rparr>"

definition apt_par :: Apt where
  "apt_par = (Apt_new ''TEST'')
     \<lparr>vecRwyEndPts := [rwy_end_ex ''09L'' 10, rwy_end_ex ''27R'' 20,
                       rwy_end_ex ''09R'' 30, rwy_end_ex ''27L'' 40],
      vecTaxiEdges := [\<lparr>etype = RUN_WAY, node_a = 0, node_b = 1, angle = Fin 90, dist_m = Fin 10\<rparr>,
                       \<lparr>etype = RUN_WAY, node_a = 2, node_b = 3, angle = Fin 90, dist_m = Fin 10\<rparr>],
      vecTaxiEdgesIdxHead := [0, 1]\<rparr>"

definition search_ex :: rwy_search where
  "search_ex =
     \<lparr>rs_from = GetToPos ac_ex, rs_headSearch = Fin 90, rs_bHeadInverted = False,
      rs_speed_m_s = Fin 1, rs_vsi_min = Fin (- 4), rs_vsi_max = Fin (- (1 / 4))\<rparr>"

definition cand_09L :: rwy_cand where
  "cand_09L = (''TEST'', vecTaxiEdges apt_par ! 0, rwy_end_ex ''09L'' 10)"

definition cand_09R :: rwy_cand where
  "cand_09R = (''TEST'', vecTaxiEdges apt_par ! 1, rwy_end_ex ''09R'' 30)"

subsection \<open>FindClosestEdge and SnapToTaxiway\<close>
























section \<open>Theorems\<close>









subsection \<open>AddTaxiEdge\<close>

lemma push_edge_length: "length (push_edge n e ns) = length ns"
  by (simp add: push_edge_def)

lemma push_edge_nth:
  "k < length ns \<Longrightarrow> push_edge n e ns ! k =
     (if k = n then (ns ! k)\<lparr>vecEdges := vecEdges (ns ! k) @ [e]\<rparr> else ns ! k)"
  by (simp add: push_edge_def)

lemma edge_registered_push:
  "n1 < length ns \<Longrightarrow> n2 < length ns \<Longrightarrow>
   edge_registered n1 n2 e ns (push_edge n2 e (push_edge n1 e ns))"
  by (auto simp: edge_registered_def push_edge_nth push_edge_length)

text \<open>
  C9, as the code has it. \<open>AddTaxiEdge\<close> has three outcomes. An index outside the node
  store raises \<open>std::out_of_range\<close> (the \<open>at\<close> calls). With both indices in the store,
  it returns \<open>ULONG_MAX\<close> and leaves the airport unchanged exactly when one of the two
  nodes has a NaN latitude or longitude; otherwise it appends the normalised
  \<open>TAXI_WAY\<close> edge with the computed angle and the given distance (computed when NaN was
  given), returns its index, which is not \<open>ULONG_MAX\<close>, and appends that index to the
  edge lists of both nodes.
\<close>

theorem AddTaxiEdge_outcome:
  assumes "length (vecTaxiEdges apt) < ULONG_MAX"
  shows "(if \<not> (n1 < length (vecTaxiNodes apt) \<and> n2 < length (vecTaxiNodes apt))
          then AddTaxiEdge E apt n1 n2 d = Inl out_of_range
          else if \<not> HasGeoCoords (vecTaxiNodes apt ! n1) \<or> \<not> HasGeoCoords (vecTaxiNodes apt ! n2)
          then AddTaxiEdge E apt n1 n2 d = Inr (ULONG_MAX, apt)
          else (\<exists>ns'. AddTaxiEdge E apt n1 n2 d =
                  Inr (length (vecTaxiEdges apt),
                       apt\<lparr>vecTaxiNodes := ns',
                           vecTaxiEdges := vecTaxiEdges apt @
                             [TaxiEdge_new TAXI_WAY n1 n2
                                (CoordAngle E (lat (vecTaxiNodes apt ! n1)) (lon (vecTaxiNodes apt ! n1))
                                              (lat (vecTaxiNodes apt ! n2)) (lon (vecTaxiNodes apt ! n2)))
                                (if isnan d
                                 then DistLatLon E (lat (vecTaxiNodes apt ! n1)) (lon (vecTaxiNodes apt ! n1))
                                                   (lat (vecTaxiNodes apt ! n2)) (lon (vecTaxiNodes apt ! n2))
                                 else d)]\<rparr>)
                \<and> edge_registered n1 n2 (length (vecTaxiEdges apt)) (vecTaxiNodes apt) ns'
                \<and> length (vecTaxiEdges apt) \<noteq> ULONG_MAX))"
  using assms
  by (auto simp: AddTaxiEdge_def Let_def edge_registered_push)

theorem AddTaxiEdge_outcome_witness:
  "length (vecTaxiEdges apt_one_b) < ULONG_MAX
   \<and> AddTaxiEdge env_ex apt_one_b 0 1 NaN =
       Inr (0, apt_one_b
         \<lparr>vecTaxiNodes := [node_ex 0 0 [0], node_ex (3 / 2) 0 [0]],
          vecTaxiEdges := [\<lparr>etype = TAXI_WAY, node_a = 0, node_b = 1, angle = Fin 0,
                            dist_m = Fin (3 / 2)\<rparr>]\<rparr>)
   \<and> AddTaxiEdge env_ex (AddTaxiNodeFixed apt_one_b (Fin 1) (Fin 1) 3) 0 2 NaN =
       Inr (ULONG_MAX, AddTaxiNodeFixed apt_one_b (Fin 1) (Fin 1) 3)"
proof -
  have h: "length (vecTaxiEdges apt_one_b) < ULONG_MAX"
    by (simp add: apt_one_b_def Apt_new_def ULONG_MAX_def)
  have h2: "length (vecTaxiEdges (AddTaxiNodeFixed apt_one_b (Fin 1) (Fin 1) 3)) < ULONG_MAX"
    by (simp add: AddTaxiNodeFixed_def Let_def apt_one_b_def Apt_new_def ULONG_MAX_def)
  from AddTaxiEdge_outcome[OF h, of 0 1 env_ex NaN]
  have "AddTaxiEdge env_ex apt_one_b 0 1 NaN =
       Inr (0, apt_one_b
         \<lparr>vecTaxiNodes := [node_ex 0 0 [0], node_ex (3 / 2) 0 [0]],
          vecTaxiEdges := [\<lparr>etype = TAXI_WAY, node_a = 0, node_b = 1, angle = Fin 0,
                            dist_m = Fin (3 / 2)\<rparr>]\<rparr>)"
    by (simp add: AddTaxiEdge_def Let_def apt_one_b_def Apt_new_def node_ex_def TaxiNode_new_def
        HasGeoCoords_def env_ex_def TaxiEdge_new_def Normalize_def dge_def push_edge_def)
  moreover from AddTaxiEdge_outcome[OF h2, of 0 2 env_ex NaN]
  have "AddTaxiEdge env_ex (AddTaxiNodeFixed apt_one_b (Fin 1) (Fin 1) 3) 0 2 NaN =
       Inr (ULONG_MAX, AddTaxiNodeFixed apt_one_b (Fin 1) (Fin 1) 3)"
    by (simp add: AddTaxiNodeFixed_def Let_def apt_one_b_def Apt_new_def node_ex_def
        TaxiNode_new_def TaxiNode_default_def HasGeoCoords_def)
  ultimately show ?thesis using h by simp
qed

theorem AddTaxiEdge_out_of_range_counterexample:
  "AddTaxiEdge env_ex apt_one_b 0 7 NaN = Inl out_of_range"
  by (simp add: AddTaxiEdge_def Let_def apt_one_b_def Apt_new_def)

subsection \<open>AddTaxiNode\<close>

lemma find_if_from_bounds: "i \<le> find_if_from P i xs \<and> find_if_from P i xs \<le> i + length xs"
proof (induction xs arbitrary: i)
  case Nil
  then show ?case by simp
next
  case (Cons x xs)
  from Cons.IH[of "Suc i"] show ?case by auto
qed

lemma find_if_from_found:
  "find_if_from P i xs \<noteq> i + length xs \<Longrightarrow>
   P (find_if_from P i xs) (xs ! (find_if_from P i xs - i))"
proof (induction xs arbitrary: i)
  case Nil
  then show ?case by simp
next
  case (Cons x xs)
  show ?case
  proof (cases "P i x")
    case True
    then show ?thesis by simp
  next
    case False
    with Cons.prems have ne: "find_if_from P (Suc i) xs \<noteq> Suc i + length xs" by simp
    from find_if_from_bounds[of "Suc i" P xs]
    have "find_if_from P (Suc i) xs - i = Suc (find_if_from P (Suc i) xs - Suc i)" by arith
    with Cons.IH[OF ne] False show ?thesis by simp
  qed
qed

lemma find_if_from_append_end:
  "find_if_from P i xs = i + length xs \<Longrightarrow>
   find_if_from P i (xs @ ys) = find_if_from P (i + length xs) ys"
proof (induction xs arbitrary: i)
  case Nil
  then show ?case by simp
next
  case (Cons x xs)
  from find_if_from_bounds[of "Suc i" P xs] Cons.prems
  show ?case using Cons.IH[of "Suc i"] by (auto split: if_splits)
qed

lemma similar_node_self:
  assumes "dle (Fin 0) (Dist2Lat E (APT_MAX_SIMILAR_NODE_DIST_M E))"
    and "dle (Fin 0) (Dist2Lon E (APT_MAX_SIMILAR_NODE_DIST_M E) (Fin la))"
    and "d = ULONG_MAX \<or> d \<noteq> i"
  shows "similar_node E (Fin la) (Fin lo) d i (TaxiNode_new (Fin la) (Fin lo))"
  using assms by (simp add: similar_node_def TaxiNode_new_def dsub_def)

text \<open>
  C6, as the code has it. With the same numeric latitude and longitude and the same
  excluded index, a second call of \<open>AddTaxiNode\<close> returns the index the first call
  returned and leaves the airport as the first call left it: it matches an existing
  node (the one the first call matched or appended) instead of appending. The two
  merge thresholds, which LTApt.cpp computes with \<open>Dist2Lat\<close> and \<open>Dist2Lon\<close>, are not
  negative.
\<close>

theorem AddTaxiNode_idempotent:
  assumes thr: "dle (Fin 0) (Dist2Lat E (APT_MAX_SIMILAR_NODE_DIST_M E))"
               "dle (Fin 0) (Dist2Lon E (APT_MAX_SIMILAR_NODE_DIST_M E) (Fin la))"
    and first: "AddTaxiNode E apt (Fin la) (Fin lo) d = Inr (i, apt')"
  shows "AddTaxiNode E apt' (Fin la) (Fin lo) d = Inr (i, apt')
       \<and> i < length (vecTaxiNodes apt')
       \<and> similar_node E (Fin la) (Fin lo) d i (vecTaxiNodes apt' ! i)"
proof -
  let ?ns = "vecTaxiNodes apt"
  let ?P = "similar_node E (Fin la) (Fin lo) d"
  let ?k = "find_if_from ?P 0 ?ns"
  from first have dr: "d = ULONG_MAX \<or> d < length ?ns"
    by (auto simp: AddTaxiNode_def GetSimilarTaxiNode_def split: if_splits)
  then have gs: "GetSimilarTaxiNode E apt (Fin la) (Fin lo) d = Inr ?k"
    by (auto simp: GetSimilarTaxiNode_def)
  show ?thesis
  proof (cases "?k = length ?ns")
    case False
    with first gs have eq: "i = ?k" "apt' = apt" by (auto simp: AddTaxiNode_def)
    from False find_if_from_bounds[of 0 ?P ?ns] have lt: "?k < length ?ns" by simp
    from False find_if_from_found[of ?P 0 ?ns] have "?P ?k (?ns ! ?k)" by simp
    with first eq lt show ?thesis by simp
  next
    case True
    with first gs have eq: "i = length ?ns"
      "apt' = apt\<lparr>bounds := bounds apt @ [(Fin la, Fin lo)],
                  vecTaxiNodes := ?ns @ [TaxiNode_new (Fin la) (Fin lo)]\<rparr>"
      by (auto simp: AddTaxiNode_def)
    from dr have ne: "d = ULONG_MAX \<or> d \<noteq> length ?ns" by auto
    have self: "?P (length ?ns) (TaxiNode_new (Fin la) (Fin lo))"
      by (rule similar_node_self[OF thr ne])
    have "find_if_from ?P 0 (?ns @ [TaxiNode_new (Fin la) (Fin lo)]) = length ?ns"
      using find_if_from_append_end[of ?P 0 ?ns] True self by simp
    moreover from dr have "d = ULONG_MAX \<or> d < Suc (length ?ns)" by auto
    ultimately have "AddTaxiNode E apt' (Fin la) (Fin lo) d = Inr (length ?ns, apt')"
      unfolding eq by (auto simp: AddTaxiNode_def GetSimilarTaxiNode_def)
    with eq self show ?thesis by simp
  qed
qed

lemma AddTaxiNode_apt_one:
  "AddTaxiNode env_ex apt_one (Fin (3 / 2)) (Fin 0) ULONG_MAX = Inr (1, apt_one_b)"
  by (simp add: AddTaxiNode_def GetSimilarTaxiNode_def apt_one_def apt_one_b_def Apt_new_def
      node_ex_def TaxiNode_new_def similar_node_def env_ex_def dsub_def)

theorem AddTaxiNode_idempotent_witness:
  "dle (Fin 0) (Dist2Lat env_ex (APT_MAX_SIMILAR_NODE_DIST_M env_ex))
   \<and> dle (Fin 0) (Dist2Lon env_ex (APT_MAX_SIMILAR_NODE_DIST_M env_ex) (Fin (3 / 2)))
   \<and> AddTaxiNode env_ex apt_one (Fin (3 / 2)) (Fin 0) ULONG_MAX = Inr (1, apt_one_b)
   \<and> AddTaxiNode env_ex apt_one_b (Fin (3 / 2)) (Fin 0) ULONG_MAX = Inr (1, apt_one_b)"
proof -
  have t1: "dle (Fin 0) (Dist2Lat env_ex (APT_MAX_SIMILAR_NODE_DIST_M env_ex))"
    and t2: "dle (Fin 0) (Dist2Lon env_ex (APT_MAX_SIMILAR_NODE_DIST_M env_ex) (Fin (3 / 2)))"
    by (simp_all add: env_ex_def)
  from AddTaxiNode_idempotent[OF t1 t2 AddTaxiNode_apt_one] t1 t2 AddTaxiNode_apt_one
  show ?thesis by simp
qed

text \<open>
  The second call is made with a latitude that differs from the first call's by half
  the merge threshold. The first call appended node 1; the second matches node 0.
\<close>

theorem AddTaxiNode_subthreshold_counterexample:
  "AddTaxiNode env_ex apt_one (Fin (3 / 2)) (Fin 0) ULONG_MAX = Inr (1, apt_one_b)
   \<and> AddTaxiNode env_ex apt_one_b (Fin 1) (Fin 0) ULONG_MAX = Inr (0, apt_one_b)
   \<and> dle (dabs (dsub (Fin (3 / 2)) (Fin 1))) (Dist2Lat env_ex (APT_MAX_SIMILAR_NODE_DIST_M env_ex))
   \<and> dless (dabs (dsub (Fin (3 / 2)) (Fin 1))) (Dist2Lat env_ex (APT_MAX_SIMILAR_NODE_DIST_M env_ex))"
  by (simp add: AddTaxiNode_def GetSimilarTaxiNode_def apt_one_def apt_one_b_def Apt_new_def
      node_ex_def TaxiNode_new_def similar_node_def env_ex_def dsub_def)

subsection \<open>FindEdgesForHeading\<close>

lemma lower_bound_from_0: "lower_bound_from lt xs first 0 = first"
  by (simp add: lower_bound_from.simps)

lemma lower_bound_from_step:
  "len \<noteq> 0 \<Longrightarrow> lower_bound_from lt xs first len =
     (if lt (xs ! (first + len div 2))
      then lower_bound_from lt xs (first + len div 2 + 1) (len - len div 2 - 1)
      else lower_bound_from lt xs first (len div 2))"
  by (subst lower_bound_from.simps) (simp add: Let_def)


lemma collect_while_eq:
  "collect_while inRange typeOk xs lst = lst @ filter typeOk (takeWhile inRange xs)"
  by (induction xs arbitrary: lst) auto






















subsection \<open>ShortestPath\<close>























text \<open>
  C2 on the triangle, with a maximum of 20. Node 0 is visited first; its first edge
  relaxes the end node 2 at distance 10, the inner loop is left, and the outer loop ends
  because the end node has a predecessor. The search returns the direct edge although
  the walk over node 1 is within the maximum and only 2 long.
\<close>

theorem ShortestPath_not_shortest:
  "ShortestPath apt_tri 0 False 2 (Fin 20) = Some (Inr ([2], apt_tri_direct))
   \<and> pathLen (vecTaxiNodes apt_tri_direct ! 2) = Fin 10
   \<and> walk_ok apt_tri 0 [(0, 2)] \<and> walk_len apt_tri [(0, 2)] = Fin 10
   \<and> walk_ok apt_tri 0 [(1, 1), (2, 2)] \<and> walk_len apt_tri [(1, 1), (2, 2)] = Fin 2
   \<and> dle (Fin 2) (Fin 20)"
  by (simp add: ShortestPath_def apt_tri_direct_def apt_tri_def Apt_new_def node_ex_def
      TaxiNode_new_def searched_def InitDijkstraAttr_def dijkstra_loop.simps visit_next_def
      Let_def otherNode_def dgt_def push_back_unique_def walk_back.simps START_NODE_def
      ULONG_MAX_def walk_len_def)

text \<open>
  C3 on the triangle. From taxi node 0 to its neighbour node 1 the search returns the
  list that holds node 1 only: the start node is not in it. From the first runway end,
  whose only taxi node is node 0, it returns the same list, whose last node is not
  a taxi node of that runway end.
\<close>

theorem ShortestPath_omits_start:
  "ShortestPath apt_tri 0 False 1 (Fin 20) = Some (Inr ([1], apt_tri_near))
   \<and> ShortestPath apt_tri 0 True 1 (Fin 20) = Some (Inr ([1], apt_tri_near))
   \<and> ep_vecTaxiNodes (vecRwyEndPts apt_tri ! 0) = [0]
   \<and> last [1::nat] \<notin> set (ep_vecTaxiNodes (vecRwyEndPts apt_tri ! 0))"
  by (simp add: ShortestPath_def apt_tri_near_def apt_tri_def Apt_new_def node_ex_def
      TaxiNode_new_def RwyEndPt_new_def searched_def InitDijkstraAttr_def dijkstra_loop.simps
      visit_next_def Let_def otherNode_def dgt_def push_back_unique_def walk_back.simps
      START_NODE_def ULONG_MAX_def)

subsection \<open>Edge types and node stores\<close>

lemma Normalize_etype: "etype (Normalize e) = etype e"
  by (simp add: Normalize_def)

lemma Normalize_ends: "{node_a (Normalize e), node_b (Normalize e)} = {node_a e, node_b e}"
  by (auto simp: Normalize_def)



lemma ends_in_Normalize: "ends_in (Normalize e) nr nt = ends_in e nr nt"
  using Normalize_ends[of e] by (auto simp: ends_in_def Normalize_etype doubleton_eq_iff)















lemma apt_rwy_eval:
  "apt_rwy = (Apt_new ''TEST'')
     \<lparr>bounds := [(Fin 0, Fin 0), (Fin 0, Fin 10)],
      vecRwyEndPts := [RwyEndPt_new ''09'' (Fin 0) (Fin 0), RwyEndPt_new ''27'' (Fin 0) (Fin 10)],
      vecTaxiEdges := [\<lparr>etype = RUN_WAY, node_a = 0, node_b = 1, angle = Fin 90, dist_m = Fin 8\<rparr>]\<rparr>"
  by (simp add: apt_rwy_def AddRwyEnds_def Let_def env_ex_def Apt_new_def TaxiEdge_new_def
      Normalize_def dge_def dsub_def)





subsection \<open>LTAptFindRwy\<close>

lemma dle_trans: "dle a b \<Longrightarrow> dle b c \<Longrightarrow> dle a c"
  by (cases a; cases b; cases c) auto

lemma dle_dless_trans: "dle a b \<Longrightarrow> dless b c \<Longrightarrow> dless a c"
  by (cases a; cases b; cases c) auto

lemma Fin_not_dgt: "\<not> dgt (Fin a) (Fin b) \<longleftrightarrow> dle (Fin a) (Fin b)"
  by (auto simp: dgt_def)

lemma Fin_dgt: "dgt (Fin a) (Fin b) \<longleftrightarrow> dless (Fin b) (Fin a)"
  by (simp add: dgt_def)

lemma Fin_not_dle: "\<not> dle (Fin a) (Fin b) \<longleftrightarrow> dless (Fin b) (Fin a)"
  by auto

lemma wins_rejected:
  assumes w: "wins E rs seen c0"
    and rej: "cand_passes E rs c \<longrightarrow> dless (cand_dev E rs c0) (cand_dev E rs c)"
  shows "wins E rs (seen @ [c]) c0"
proof -
  from w obtain pre post where h: "seen = pre @ c0 # post" "cand_passes E rs c0"
    "dle (cand_dev E rs c0) (ART_RWY_MAX_HEAD_DIFF E)"
    "\<forall>x \<in> set pre. cand_passes E rs x \<longrightarrow> dle (cand_dev E rs c0) (cand_dev E rs x)"
    "\<forall>x \<in> set post. cand_passes E rs x \<longrightarrow> dless (cand_dev E rs c0) (cand_dev E rs x)"
    unfolding wins_def by blast
  have "seen @ [c] = pre @ c0 # (post @ [c])" using h(1) by simp
  moreover have "\<forall>x \<in> set (post @ [c]). cand_passes E rs x \<longrightarrow>
      dless (cand_dev E rs c0) (cand_dev E rs x)" using h(5) rej by auto
  ultimately show ?thesis unfolding wins_def using h(2,3,4) by blast
qed

lemma wins_accepted:
  assumes p: "cand_passes E rs c" and m: "dle (cand_dev E rs c) (ART_RWY_MAX_HEAD_DIFF E)"
    and lower: "\<forall>x \<in> set seen. cand_passes E rs x \<longrightarrow> dle (cand_dev E rs c) (cand_dev E rs x)"
  shows "wins E rs (seen @ [c]) c"
  unfolding wins_def using assms by (intro exI[of _ seen] exI[of _ "[]"]) simp

lemma wins_lower:
  assumes w: "wins E rs seen c0" and le: "dle (cand_dev E rs c) (cand_dev E rs c0)"
  shows "\<forall>x \<in> set seen. cand_passes E rs x \<longrightarrow> dle (cand_dev E rs c) (cand_dev E rs x)"
proof (intro ballI impI)
  fix x assume x: "x \<in> set seen" "cand_passes E rs x"
  from w obtain pre post where h: "seen = pre @ c0 # post"
    "\<forall>x \<in> set pre. cand_passes E rs x \<longrightarrow> dle (cand_dev E rs c0) (cand_dev E rs x)"
    "\<forall>x \<in> set post. cand_passes E rs x \<longrightarrow> dless (cand_dev E rs c0) (cand_dev E rs x)"
    unfolding wins_def by blast
  from x(1) h(1) consider "x \<in> set pre" | "x = c0" | "x \<in> set post" by auto
  then show "dle (cand_dev E rs c) (cand_dev E rs x)"
  proof cases
    case 1
    with h(2) x(2) have "dle (cand_dev E rs c0) (cand_dev E rs x)" by blast
    with le show ?thesis by (rule dle_trans)
  next
    case 2
    with le show ?thesis by simp
  next
    case 3
    with h(3) x(2) have "dless (cand_dev E rs c0) (cand_dev E rs x)" by blast
    with le have "dless (cand_dev E rs c) (cand_dev E rs x)" by (rule dle_dless_trans)
    then show ?thesis by (cases "cand_dev E rs c"; cases "cand_dev E rs x") auto
  qed
qed

lemma rwy_step_result:
  assumes "rwy_step E rs key apt best eIdx = Inr best'"
  shows "best' =
     (if cand_passes E rs (rwy_cand rs key apt eIdx) \<and>
         \<not> dgt (cand_dev E rs (rwy_cand rs key apt eIdx)) (bestHeadingDiff best)
      then \<lparr>bestApt = Some key, bestRwy = Some (vecTaxiEdges apt ! eIdx),
            bestRwyEndPt = Some (snd (snd (rwy_cand rs key apt eIdx))),
            bestHeadingDiff = cand_dev E rs (rwy_cand rs key apt eIdx),
            bestArrivalTS = dadd (p_ts (rs_from rs))
                              (rwy_d_ts E rs (snd (snd (rwy_cand rs key apt eIdx))))\<rparr>
      else best)"
  using assms
  by (auto simp: rwy_step_def rwy_cand_def cand_passes_def cand_dev_def Let_def
      GetRwyEP_A_def GetRwyEP_B_def split: if_splits sum.splits)

lemma rwy_step_inv:
  assumes st: "rwy_step E rs key apt best eIdx = Inr best'"
    and inv: "best_inv E rs seen best"
    and num: "devs_numeric E rs (seen @ [rwy_cand rs key apt eIdx])"
  shows "best_inv E rs (seen @ [rwy_cand rs key apt eIdx]) best'"
proof -
  let ?c = "rwy_cand rs key apt eIdx"
  let ?M = "ART_RWY_MAX_HEAD_DIFF E"
  from num obtain m where m: "?M = Fin m" by (auto simp: devs_numeric_def)
  from num have fin: "\<And>x. x \<in> set seen \<or> x = ?c \<Longrightarrow> \<exists>d. cand_dev E rs x = Fin d"
    by (auto simp: devs_numeric_def)
  from fin[of ?c] obtain d where d: "cand_dev E rs ?c = Fin d" by blast
  note res = rwy_step_result[OF st]
  show ?thesis
  proof (cases "bestRwyEndPt best = None")
    case True
    with inv have b: "bestHeadingDiff best = ?M" and nf: "none_fits E rs seen"
      by (simp_all add: best_inv_def)
    show ?thesis
    proof (cases "cand_passes E rs ?c \<and> \<not> dgt (cand_dev E rs ?c) (bestHeadingDiff best)")
      case acc: True
      then have le: "dle (cand_dev E rs ?c) ?M" unfolding b d m by (simp add: Fin_not_dgt)
      have lower: "\<forall>x \<in> set seen. cand_passes E rs x \<longrightarrow>
          dle (cand_dev E rs ?c) (cand_dev E rs x)"
      proof (intro ballI impI)
        fix x assume x: "x \<in> set seen" "cand_passes E rs x"
        from fin[of x] x(1) obtain dx where dx: "cand_dev E rs x = Fin dx" by blast
        from nf x have "\<not> dle (cand_dev E rs x) ?M" by (simp add: none_fits_def)
        with le show "dle (cand_dev E rs ?c) (cand_dev E rs x)" unfolding dx d m by simp
      qed
      from acc have w: "wins E rs (seen @ [?c]) ?c"
        by (intro wins_accepted le lower) simp
      from acc res have bi: "best_is E rs best' ?c"
        by (simp add: best_is_def rwy_cand_def Let_def)
      from acc res have "bestRwyEndPt best' \<noteq> None" by simp
      moreover from w bi have "\<exists>c. wins E rs (seen @ [?c]) c \<and> best_is E rs best' c"
        by (intro exI[of _ ?c] conjI)
      ultimately show ?thesis unfolding best_inv_def by (simp only: if_False)
    next
      case rej: False
      with res have same: "best' = best" by simp
      from rej have "cand_passes E rs ?c \<longrightarrow> \<not> dle (cand_dev E rs ?c) ?M"
        unfolding b d m by (auto simp: dgt_def)
      with nf have "none_fits E rs (seen @ [?c])" by (simp add: none_fits_def)
      with True b same show ?thesis by (simp add: best_inv_def)
    qed
  next
    case False
    with inv obtain c0 where c0: "wins E rs seen c0" "best_is E rs best c0"
      by (auto simp: best_inv_def)
    from c0(1) have c0in: "c0 \<in> set seen" and c0le: "dle (cand_dev E rs c0) ?M"
      by (auto simp: wins_def)
    from c0(2) have b: "bestHeadingDiff best = cand_dev E rs c0" by (simp add: best_is_def)
    from fin[of c0] c0in obtain d0 where d0: "cand_dev E rs c0 = Fin d0" by blast
    show ?thesis
    proof (cases "cand_passes E rs ?c \<and> \<not> dgt (cand_dev E rs ?c) (bestHeadingDiff best)")
      case acc: True
      then have le0: "dle (cand_dev E rs ?c) (cand_dev E rs c0)"
        unfolding b d d0 by (simp add: Fin_not_dgt)
      from dle_trans[OF le0 c0le] have le: "dle (cand_dev E rs ?c) ?M" .
      from acc have w: "wins E rs (seen @ [?c]) ?c"
        by (intro wins_accepted le wins_lower[OF c0(1) le0]) simp
      from acc res have bi: "best_is E rs best' ?c"
        by (simp add: best_is_def rwy_cand_def Let_def)
      from acc res have "bestRwyEndPt best' \<noteq> None" by simp
      moreover from w bi have "\<exists>c. wins E rs (seen @ [?c]) c \<and> best_is E rs best' c"
        by (intro exI[of _ ?c] conjI)
      ultimately show ?thesis unfolding best_inv_def by (simp only: if_False)
    next
      case rej: False
      with res have same: "best' = best" by simp
      from rej have "cand_passes E rs ?c \<longrightarrow> dless (cand_dev E rs c0) (cand_dev E rs ?c)"
        unfolding b d d0 by (auto simp: dgt_def)
      from wins_rejected[OF c0(1) this] c0(2)
      have "\<exists>c. wins E rs (seen @ [?c]) c \<and> best_is E rs best c"
        by (intro exI[of _ c0] conjI)
      with False same show ?thesis unfolding best_inv_def by (simp only: if_False)
    qed
  qed
qed

lemma devs_numeric_append:
  "devs_numeric E rs (xs @ ys) \<Longrightarrow> devs_numeric E rs xs"
  by (auto simp: devs_numeric_def)

lemma rwy_loop_inv:
  "fold_err (rwy_step E rs key apt) best lst = Inr best' \<Longrightarrow> best_inv E rs seen best \<Longrightarrow>
   devs_numeric E rs (seen @ map (rwy_cand rs key apt) lst) \<Longrightarrow>
   best_inv E rs (seen @ map (rwy_cand rs key apt) lst) best'"
proof (induction lst arbitrary: best seen)
  case Nil
  then show ?case by simp
next
  case (Cons eIdx lst)
  from Cons.prems(1) obtain b1 where s1: "rwy_step E rs key apt best eIdx = Inr b1"
    and r1: "fold_err (rwy_step E rs key apt) b1 lst = Inr best'"
    by (auto split: sum.splits)
  have eq: "seen @ map (rwy_cand rs key apt) (eIdx # lst) =
            (seen @ [rwy_cand rs key apt eIdx]) @ map (rwy_cand rs key apt) lst" by simp
  from Cons.prems(3) have n1: "devs_numeric E rs (seen @ [rwy_cand rs key apt eIdx])"
    unfolding eq by (rule devs_numeric_append)
  from rwy_step_inv[OF s1 Cons.prems(2) n1]
  have i1: "best_inv E rs (seen @ [rwy_cand rs key apt eIdx]) b1" .
  from Cons.prems(3) have n2: "devs_numeric E rs
      ((seen @ [rwy_cand rs key apt eIdx]) @ map (rwy_cand rs key apt) lst)"
    unfolding eq .
  from Cons.IH[OF r1 i1 n2] show ?case unfolding eq .
qed

lemma apt_step_inv:
  assumes st: "apt_step E rs best ka = Inr best'"
    and inv: "best_inv E rs seen best"
    and num: "devs_numeric E rs (seen @ map (rwy_cand rs (fst ka) (snd ka)) (found_rwys E rs (snd ka)))"
  shows "best_inv E rs (seen @ map (rwy_cand rs (fst ka) (snd ka)) (found_rwys E rs (snd ka))) best'"
proof -
  from st obtain r where
    f: "FindEdgesForHeading (snd ka) (rs_headSearch rs) (ART_RWY_MAX_HEAD_DIFF E) [] RUN_WAY = Inr r"
    by (auto simp: apt_step_def split: sum.splits)
  then have fr: "found_rwys E rs (snd ka) = snd r" by (simp add: found_rwys_def)
  from f have e: "fst r = (snd r \<noteq> [])"
    by (auto simp: FindEdgesForHeading_def Let_def split: if_splits)
  show ?thesis
  proof (cases "fst r")
    case True
    with st f have "fold_err (rwy_step E rs (fst ka) (snd ka)) best (snd r) = Inr best'"
      by (simp add: apt_step_def)
    from rwy_loop_inv[OF this inv] num show ?thesis unfolding fr by simp
  next
    case False
    with st f have "best' = best" by (simp add: apt_step_def)
    with False e inv show ?thesis unfolding fr by simp
  qed
qed

lemma apt_loop_inv:
  "fold_err (apt_step E rs) best apts = Inr best' \<Longrightarrow> best_inv E rs seen best \<Longrightarrow>
   devs_numeric E rs (seen @ rwy_cands E rs apts) \<Longrightarrow>
   best_inv E rs (seen @ rwy_cands E rs apts) best'"
proof (induction apts arbitrary: best seen)
  case Nil
  then show ?case by (simp add: rwy_cands_def)
next
  case (Cons ka apts)
  let ?here = "map (rwy_cand rs (fst ka) (snd ka)) (found_rwys E rs (snd ka))"
  from Cons.prems(1) obtain b1 where s1: "apt_step E rs best ka = Inr b1"
    and r1: "fold_err (apt_step E rs) b1 apts = Inr best'"
    by (auto split: sum.splits)
  have eq: "seen @ rwy_cands E rs (ka # apts) = (seen @ ?here) @ rwy_cands E rs apts"
    by (simp add: rwy_cands_def)
  from Cons.prems(3) have n1: "devs_numeric E rs (seen @ ?here)"
    unfolding eq by (rule devs_numeric_append)
  from apt_step_inv[OF s1 Cons.prems(2) n1] have i1: "best_inv E rs (seen @ ?here) b1" .
  from Cons.prems(3) have n2: "devs_numeric E rs ((seen @ ?here) @ rwy_cands E rs apts)"
    unfolding eq .
  from Cons.IH[OF r1 i1 n2] show ?case unfolding eq .
qed

lemma LTAptFindRwy_best_candidate:
  assumes fb: "find_best E ac gmapApt = Inr best"
    and num: "devs_numeric E (rwy_search_of E ac) (rwy_cands E (rwy_search_of E ac) gmapApt)"
  shows "if bestRwyEndPt best = None
         then none_fits E (rwy_search_of E ac) (rwy_cands E (rwy_search_of E ac) gmapApt)
         else (\<exists>c. wins E (rwy_search_of E ac) (rwy_cands E (rwy_search_of E ac) gmapApt) c \<and>
                   best_is E (rwy_search_of E ac) best c)"
proof -
  let ?rs = "rwy_search_of E ac"
  let ?init = "\<lparr>bestApt = None, bestRwy = None, bestRwyEndPt = None,
        bestHeadingDiff = ART_RWY_MAX_HEAD_DIFF E, bestArrivalTS = NaN\<rparr>"
  have i0: "best_inv E ?rs [] ?init" by (simp add: best_inv_def none_fits_def)
  from fb have f: "fold_err (apt_step E ?rs) ?init gmapApt = Inr best"
    by (simp add: find_best_def)
  from apt_loop_inv[OF f i0] num have "best_inv E ?rs (rwy_cands E ?rs gmapApt) best" by simp
  then show ?thesis unfolding best_inv_def by (auto split: if_splits)
qed

lemma search_range_subset:
  "set (search_range apt ty lst r) \<subseteq>
     set lst \<union> {i \<in> set (vecTaxiEdgesIdxHead apt). ty = UNKNOWN_WAY \<or> ty = etype (vecTaxiEdges apt ! i)}"
proof -
  have "set (takeWhile P (drop n xs)) \<subseteq> set xs" for P n and xs :: "nat list"
    by (auto dest!: set_takeWhileD in_set_dropD)
  then have "set (filter Q (takeWhile P (drop n xs))) \<subseteq> {i \<in> set xs. Q i}"
    for P Q n and xs :: "nat list"
    by auto
  then show ?thesis
    unfolding search_range_def Let_def collect_while_eq set_append by blast
qed

lemma foldl_search_range_subset:
  "set (foldl (search_range apt ty) lst rs) \<subseteq>
     set lst \<union> {i \<in> set (vecTaxiEdgesIdxHead apt). ty = UNKNOWN_WAY \<or> ty = etype (vecTaxiEdges apt ! i)}"
proof (induction rs arbitrary: lst)
  case Nil
  then show ?case by simp
next
  case (Cons r rs)
  from Cons.IH[of "search_range apt ty lst r"] search_range_subset[of apt ty lst r]
  show ?case by auto
qed

lemma found_rwys_runways:
  assumes "i \<in> set (found_rwys E rs apt)"
  shows "i \<in> set (vecTaxiEdgesIdxHead apt) \<and> etype (vecTaxiEdges apt ! i) = RUN_WAY"
proof -
  from assms have "i \<in> set (foldl (search_range apt RUN_WAY) []
                      (heading_ranges (rs_headSearch rs) (ART_RWY_MAX_HEAD_DIFF E)))"
    by (auto simp: found_rwys_def FindEdgesForHeading_def Let_def split: if_splits)
  from subsetD[OF foldl_search_range_subset this] show ?thesis by auto
qed

lemma rwy_step_returns:
  assumes "edge_ends_valid apt" "eIdx < length (vecTaxiEdges apt)"
    "etype (vecTaxiEdges apt ! eIdx) = RUN_WAY"
  shows "\<exists>b. rwy_step E rs key apt best eIdx = Inr b"
proof -
  from assms(1,2) have "vecTaxiEdges apt ! eIdx \<in> set (vecTaxiEdges apt)" by simp
  with assms(1,3) have "node_a (vecTaxiEdges apt ! eIdx) < length (vecRwyEndPts apt)"
    "node_b (vecTaxiEdges apt ! eIdx) < length (vecRwyEndPts apt)"
    unfolding edge_ends_valid_def by auto
  with assms(2,3) show ?thesis
    by (simp add: rwy_step_def Let_def GetRwyEP_A_def GetRwyEP_B_def)
qed

lemma fold_err_returns:
  "(\<And>s x. x \<in> set xs \<Longrightarrow> \<exists>s'. f s x = Inr s') \<Longrightarrow> \<exists>s'. fold_err f s xs = Inr s'"
proof (induction xs arbitrary: s)
  case Nil
  then show ?case by simp
next
  case (Cons x xs)
  from Cons.prems[of x s] obtain s1 where s1: "f s x = Inr s1" by auto
  from Cons.IH[of s1] Cons.prems obtain s2 where "fold_err f s1 xs = Inr s2" by auto
  with s1 show ?case by simp
qed

lemma apt_step_returns:
  assumes v: "edge_ends_valid (snd ka)"
    and ix: "\<forall>i \<in> set (vecTaxiEdgesIdxHead (snd ka)). i < length (vecTaxiEdges (snd ka))"
  shows "\<exists>b. apt_step E rs best ka = Inr b"
proof -
  from ix obtain r where
    f: "FindEdgesForHeading (snd ka) (rs_headSearch rs) (ART_RWY_MAX_HEAD_DIFF E) [] RUN_WAY = Inr r"
    by (auto simp: FindEdgesForHeading_def Let_def)
  then have fr: "found_rwys E rs (snd ka) = snd r" by (simp add: found_rwys_def)
  have "\<exists>b. fold_err (rwy_step E rs (fst ka) (snd ka)) best (snd r) = Inr b"
  proof (rule fold_err_returns)
    fix s x assume "x \<in> set (snd r)"
    with fr found_rwys_runways[of x E rs "snd ka"]
    have "x \<in> set (vecTaxiEdgesIdxHead (snd ka))" "etype (vecTaxiEdges (snd ka) ! x) = RUN_WAY"
      by auto
    with ix v show "\<exists>s'. rwy_step E rs (fst ka) (snd ka) s x = Inr s'"
      by (intro rwy_step_returns) auto
  qed
  with f show ?thesis by (auto simp: apt_step_def)
qed

lemma find_best_returns:
  assumes "apts_ok gmapApt"
  shows "\<exists>best. find_best E ac gmapApt = Inr best"
  unfolding find_best_def
proof (rule fold_err_returns)
  fix s x assume "x \<in> set gmapApt"
  with assms show "\<exists>s'. apt_step E (rwy_search_of E ac) s x = Inr s'"
    by (intro apt_step_returns) (auto simp: apts_ok_def)
qed

text \<open>
  C7, as the code has it. When every airport of the map has a valid heading index and
  valid runway edges, and the allowed maximum and all deviations are numbers,
  \<open>LTAptFindRwy\<close> returns. It returns the default position when every candidate that
  passes the altitude and vertical-speed checks deviates by more than
  \<open>ART_RWY_MAX_HEAD_DIFF\<close>. Otherwise it returns the touch-down position of a candidate
  that passes the checks and whose deviation is at most the maximum, at most the
  deviation of every passing candidate met earlier and strictly less than the deviation
  of every passing candidate met later: the smallest deviation wins, and among equal
  deviations the candidate met last.
\<close>

theorem LTAptFindRwy_least_deviation:
  assumes ok: "apts_ok gmapApt"
    and num: "devs_numeric E (rwy_search_of E ac) (rwy_cands E (rwy_search_of E ac) gmapApt)"
  shows "\<exists>pos. LTAptFindRwy E ac gmapApt = Inr pos \<and>
           ((pos = positionTy_default \<and>
             none_fits E (rwy_search_of E ac) (rwy_cands E (rwy_search_of E ac) gmapApt)) \<or>
            (\<exists>c. wins E (rwy_search_of E ac) (rwy_cands E (rwy_search_of E ac) gmapApt) c \<and>
                 touches_down_at E ac pos c))"
proof -
  let ?rs = "rwy_search_of E ac"
  from find_best_returns[OF ok] obtain best where fb: "find_best E ac gmapApt = Inr best"
    by blast
  note sel = LTAptFindRwy_best_candidate[OF fb num]
  show ?thesis
  proof (cases "bestRwyEndPt best = None")
    case True
    with fb have "LTAptFindRwy E ac gmapApt = Inr positionTy_default"
      by (simp add: LTAptFindRwy_def)
    with sel True show ?thesis by simp
  next
    case False
    with sel obtain c where c: "wins E ?rs (rwy_cands E ?rs gmapApt) c" "best_is E ?rs best c"
      by auto
    have "rs_from ?rs = GetToPos ac" by (simp add: rwy_search_of_def Let_def)
    with c(2) fb
    have "\<exists>pos. LTAptFindRwy E ac gmapApt = Inr pos \<and> touches_down_at E ac pos c"
      by (simp add: LTAptFindRwy_def best_is_def touches_down_at_def rwy_ep_def)
    then obtain pos where p: "LTAptFindRwy E ac gmapApt = Inr pos" "touches_down_at E ac pos c"
      by blast
    from c(1) p(2) have "\<exists>c. wins E ?rs (rwy_cands E ?rs gmapApt) c \<and> touches_down_at E ac pos c"
      by (intro exI[of _ c] conjI)
    with p(1) show ?thesis by blast
  qed
qed

lemma apt_par_found:
  "FindEdgesForHeading apt_par (Fin 90) (Fin 15) [] RUN_WAY = Inr (True, [0, 1])"
  by (simp add: FindEdgesForHeading_def heading_ranges_def dge_def dsub_def Let_def
      search_range_def apt_par_def Apt_new_def lower_bound_from_step lower_bound_from_0)

lemma env_ex_sel:
  "CoordAngle env_ex = ex_angle" "HeadingDiff env_ex = ex_hdiff" "CoordDistance env_ex = ex_dist"
  "ART_RWY_MAX_HEAD_DIFF env_ex = Fin 15"
  by (simp_all add: env_ex_def)

lemma rs_ex: "rwy_search_of env_ex ac_ex = search_ex"
  by (simp add: rwy_search_of_def search_ex_def env_ex_def ac_ex_def positionTy_default_def
      dge_def dmin_def Let_def)

lemma search_ex_sel:
  "rs_headSearch search_ex = Fin 90" "rs_bHeadInverted search_ex = False"
  "rs_speed_m_s search_ex = Fin 1"
  "rs_vsi_min search_ex = Fin (- 4)" "rs_vsi_max search_ex = Fin (- (1 / 4))"
  "p_lat (rs_from search_ex) = Fin 0" "p_lon (rs_from search_ex) = Fin 0"
  "p_alt_m (rs_from search_ex) = Fin 30" "p_ts (rs_from search_ex) = Fin 0"
  "p_heading (rs_from search_ex) = Fin 90"
  by (simp_all add: search_ex_def ac_ex_def positionTy_default_def)

lemma found_rwys_ex: "found_rwys env_ex search_ex apt_par = [0, 1]"
  by (simp add: found_rwys_def search_ex_sel env_ex_sel apt_par_found)

lemma apt_par_sel:
  "vecTaxiEdges apt_par =
     [\<lparr>etype = RUN_WAY, node_a = 0, node_b = 1, angle = Fin 90, dist_m = Fin 10\<rparr>,
      \<lparr>etype = RUN_WAY, node_a = 2, node_b = 3, angle = Fin 90, dist_m = Fin 10\<rparr>]"
  "vecRwyEndPts apt_par =
     [rwy_end_ex ''09L'' 10, rwy_end_ex ''27R'' 20, rwy_end_ex ''09R'' 30, rwy_end_ex ''27L'' 40]"
  by (simp_all add: apt_par_def Apt_new_def)

lemma rwy_cands_ex: "rwy_cands env_ex search_ex [(''TEST'', apt_par)] = [cand_09L, cand_09R]"
proof -
  have "rwy_cand search_ex ''TEST'' apt_par 0 = cand_09L"
    "rwy_cand search_ex ''TEST'' apt_par 1 = cand_09R"
    by (simp_all add: rwy_cand_def cand_09L_def cand_09R_def search_ex_sel apt_par_sel Let_def)
  then show ?thesis by (simp add: rwy_cands_def found_rwys_ex)
qed

lemma rwy_end_ex_sel:
  "lat (rwy_end_ex i lo) = Fin 0" "lon (rwy_end_ex i lo) = Fin lo"
  "ep_alt_m (rwy_end_ex i lo) = Fin 0"
  by (simp_all add: rwy_end_ex_def RwyEndPt_new_def)

lemma rwy_ex_dev: "0 \<le> lo \<Longrightarrow> rwy_headingDiff env_ex search_ex (rwy_end_ex i lo) = Fin 0"
  by (simp add: rwy_headingDiff_def search_ex_sel env_ex_sel rwy_end_ex_sel)

lemma rwy_ex_d_ts: "0 \<le> lo \<Longrightarrow> rwy_d_ts env_ex search_ex (rwy_end_ex i lo) = Fin lo"
  by (simp add: rwy_d_ts_def search_ex_sel env_ex_sel rwy_end_ex_sel)

lemma rwy_ex_vsi: "0 < lo \<Longrightarrow> rwy_vsi env_ex search_ex (rwy_end_ex i lo) = Fin (- 30 / lo)"
  by (simp add: rwy_vsi_def rwy_ex_d_ts search_ex_sel rwy_end_ex_sel dsub_def)

lemma cand_ex_dev:
  "cand_dev env_ex search_ex cand_09L = Fin 0" "cand_dev env_ex search_ex cand_09R = Fin 0"
  by (simp_all add: cand_dev_def cand_09L_def cand_09R_def rwy_ex_dev)

lemma cand_ex_passes:
  "cand_passes env_ex search_ex cand_09L" "cand_passes env_ex search_ex cand_09R"
  by (simp_all add: cand_passes_def cand_09L_def cand_09R_def rwy_ex_vsi search_ex_sel
      rwy_end_ex_sel dgt_def)

lemma rwy_step_ex:
  "rwy_step env_ex search_ex ''TEST'' apt_par
     \<lparr>bestApt = None, bestRwy = None, bestRwyEndPt = None,
      bestHeadingDiff = Fin 15, bestArrivalTS = NaN\<rparr> 0 =
   Inr \<lparr>bestApt = Some ''TEST'', bestRwy = Some (vecTaxiEdges apt_par ! 0),
        bestRwyEndPt = Some (rwy_end_ex ''09L'' 10), bestHeadingDiff = Fin 0,
        bestArrivalTS = Fin 10\<rparr>"
  "rwy_step env_ex search_ex ''TEST'' apt_par
     \<lparr>bestApt = Some ''TEST'', bestRwy = Some (vecTaxiEdges apt_par ! 0),
      bestRwyEndPt = Some (rwy_end_ex ''09L'' 10), bestHeadingDiff = Fin 0,
      bestArrivalTS = Fin 10\<rparr> 1 =
   Inr \<lparr>bestApt = Some ''TEST'', bestRwy = Some (vecTaxiEdges apt_par ! 1),
        bestRwyEndPt = Some (rwy_end_ex ''09R'' 30), bestHeadingDiff = Fin 0,
        bestArrivalTS = Fin 30\<rparr>"
  by (simp_all add: rwy_step_def GetRwyEP_A_def apt_par_sel search_ex_sel rwy_ex_dev rwy_ex_vsi
      rwy_ex_d_ts rwy_end_ex_sel dgt_def Let_def)

lemma find_best_ex:
  "find_best env_ex ac_ex [(''TEST'', apt_par)] =
     Inr \<lparr>bestApt = Some ''TEST'', bestRwy = Some (vecTaxiEdges apt_par ! 1),
          bestRwyEndPt = Some (rwy_end_ex ''09R'' 30), bestHeadingDiff = Fin 0,
          bestArrivalTS = Fin 30\<rparr>"
  by (simp add: find_best_def rs_ex apt_step_def search_ex_sel env_ex_sel apt_par_found
      rwy_step_ex[unfolded One_nat_def])

lemma LTAptFindRwy_ex:
  "LTAptFindRwy env_ex ac_ex [(''TEST'', apt_par)] =
     Inr \<lparr>p_lat = Fin 0, p_lon = Fin 30, p_alt_m = Fin 0, p_ts = Fin 30, p_heading = Fin 90,
          p_pitch = Fin 2, p_roll = Fin 0, p_onGrnd = GND_ON, p_flightPhase = FPH_TOUCH_DOWN,
          p_edgeIdx = EDGE_UNKNOWN\<rparr>"
proof -
  have "PITCH_FLARE (mdl ac_ex) = Fin 2" by (simp add: ac_ex_def)
  then show ?thesis
    by (simp add: LTAptFindRwy_def find_best_ex rs_ex search_ex_sel rwy_end_ex_sel apt_par_sel)
qed

text \<open>
  Two runways of one airport both pass all checks with the same deviation 0; the search
  meets 09L first and 09R second, and returns the endpoint of 09R.
\<close>

theorem LTAptFindRwy_tie_counterexample:
  "rwy_cands env_ex (rwy_search_of env_ex ac_ex) [(''TEST'', apt_par)] = [cand_09L, cand_09R] \<and>
   cand_passes env_ex (rwy_search_of env_ex ac_ex) cand_09L \<and>
   cand_passes env_ex (rwy_search_of env_ex ac_ex) cand_09R \<and>
   cand_dev env_ex (rwy_search_of env_ex ac_ex) cand_09L = Fin 0 \<and>
   cand_dev env_ex (rwy_search_of env_ex ac_ex) cand_09R = Fin 0 \<and>
   lon (rwy_ep cand_09L) = Fin 10 \<and> lon (rwy_ep cand_09R) = Fin 30 \<and>
   (\<exists>pos. LTAptFindRwy env_ex ac_ex [(''TEST'', apt_par)] = Inr pos \<and> p_lon pos = Fin 30)"
proof -
  have "lon (rwy_ep cand_09L) = Fin 10" "lon (rwy_ep cand_09R) = Fin 30"
    by (simp_all add: rwy_ep_def cand_09L_def cand_09R_def rwy_end_ex_sel)
  then show ?thesis
    by (simp add: rs_ex rwy_cands_ex cand_ex_dev cand_ex_passes LTAptFindRwy_ex)
qed

lemma apts_ok_ex: "apts_ok [(''TEST'', apt_par)]"
  by (simp add: apts_ok_def edge_ends_valid_def apt_par_sel) (simp add: apt_par_def Apt_new_def)

lemma devs_numeric_ex:
  "devs_numeric env_ex (rwy_search_of env_ex ac_ex)
     (rwy_cands env_ex (rwy_search_of env_ex ac_ex) [(''TEST'', apt_par)])"
  by (simp add: devs_numeric_def rs_ex rwy_cands_ex cand_ex_dev env_ex_sel)

theorem LTAptFindRwy_least_deviation_witness:
  "apts_ok [(''TEST'', apt_par)] \<and>
   devs_numeric env_ex (rwy_search_of env_ex ac_ex)
     (rwy_cands env_ex (rwy_search_of env_ex ac_ex) [(''TEST'', apt_par)]) \<and>
   (\<exists>c. wins env_ex (rwy_search_of env_ex ac_ex)
          (rwy_cands env_ex (rwy_search_of env_ex ac_ex) [(''TEST'', apt_par)]) c \<and>
        touches_down_at env_ex ac_ex
          \<lparr>p_lat = Fin 0, p_lon = Fin 30, p_alt_m = Fin 0, p_ts = Fin 30, p_heading = Fin 90,
           p_pitch = Fin 2, p_roll = Fin 0, p_onGrnd = GND_ON, p_flightPhase = FPH_TOUCH_DOWN,
           p_edgeIdx = EDGE_UNKNOWN\<rparr> c)"
proof -
  let ?pos = "\<lparr>p_lat = Fin 0, p_lon = Fin 30, p_alt_m = Fin 0, p_ts = Fin 30, p_heading = Fin 90,
           p_pitch = Fin 2, p_roll = Fin 0, p_onGrnd = GND_ON, p_flightPhase = FPH_TOUCH_DOWN,
           p_edgeIdx = EDGE_UNKNOWN\<rparr>"
  from LTAptFindRwy_least_deviation[OF apts_ok_ex devs_numeric_ex]
  obtain pos where p: "LTAptFindRwy env_ex ac_ex [(''TEST'', apt_par)] = Inr pos"
    "(pos = positionTy_default \<and>
      none_fits env_ex (rwy_search_of env_ex ac_ex)
        (rwy_cands env_ex (rwy_search_of env_ex ac_ex) [(''TEST'', apt_par)])) \<or>
     (\<exists>c. wins env_ex (rwy_search_of env_ex ac_ex)
            (rwy_cands env_ex (rwy_search_of env_ex ac_ex) [(''TEST'', apt_par)]) c \<and>
          touches_down_at env_ex ac_ex pos c)"
    by blast
  from p(1) have e: "pos = ?pos" by (simp add: LTAptFindRwy_ex)
  have "?pos \<noteq> positionTy_default" by (simp add: positionTy_default_def)
  with p(2) have "\<exists>c. wins env_ex (rwy_search_of env_ex ac_ex)
            (rwy_cands env_ex (rwy_search_of env_ex ac_ex) [(''TEST'', apt_par)]) c \<and>
          touches_down_at env_ex ac_ex ?pos c"
    unfolding e by blast
  with apts_ok_ex devs_numeric_ex show ?thesis by (intro conjI)
qed

subsection \<open>SnapToTaxiway\<close>


























end
